theory Spec2Isabelle
  imports Main "HOL-Library.Word"
begin

unbundle bit_operations_syntax

section \<open>The page codec of sqlite3crypt.c\<close>

text \<open>
  A shallow embedding of \<^verbatim>\<open>sqlite3crypt.c\<close>: the cipher context, the crypto block
  that a pager owns, the codec callback, the attach protocol, key retrieval and rekey.
  Memory that the C code shares through pointers (the cipher contexts, which a block
  reaches through \<^verbatim>\<open>readCtx\<close> and \<^verbatim>\<open>writeCtx\<close>) lives in an explicit store; every
  \<^verbatim>\<open>sqlite3_malloc\<close> may fail, and every early return of the source is a branch here.
\<close>

subsection \<open>Bytes, status codes, sizes\<close>

type_synonym byte = "8 word"
type_synonym addr = nat

definition SQLITE_OK :: int where "SQLITE_OK = 0"
definition SQLITE_ERROR :: int where "SQLITE_ERROR = 1"
definition SQLITE_NOMEM :: int where "SQLITE_NOMEM = 7"

definition KEYSIZE :: nat where "KEYSIZE = 8"

text \<open>\<^verbatim>\<open>sizeof(SQLiteCipherContext)\<close> is 8 (a packed union of 8 bytes).
  \<^verbatim>\<open>sizeof(CodecCryptBlock)\<close> is 40 with 8-byte pointers; only its being positive matters.\<close>

definition sizeof_SQLiteCipherContext :: int where "sizeof_SQLiteCipherContext = 8"
definition sizeof_CodecCryptBlock :: int where "sizeof_CodecCryptBlock = 40"

subsection \<open>The cipher context\<close>

text \<open>
  \<^verbatim>\<open>typedef union { unsigned char key[8]; uint64_t num; } SQLiteCipherContext;\<close>
  The record holds the eight key bytes; \<open>num\<close> reads the same eight bytes as one unsigned
  64-bit number (least significant byte first). The code only ever tests \<open>num\<close> against
  zero, which does not depend on the byte order.
\<close>

record SQLiteCipherContext =
  key :: "byte list"

definition num :: "SQLiteCipherContext \<Rightarrow> nat" where
  "num ctx = foldr (\<lambda>b n. unat b + 256 * n) (key ctx) 0"

subsection \<open>The stream cipher\<close>

text \<open>
  Modelled from the spec: the cipher primitive \<^verbatim>\<open>mbedtls_arc4_setup\<close> /
  \<^verbatim>\<open>mbedtls_arc4_crypt\<close>, declared in \<^verbatim>\<open>crypto/mbedtls/arc4.h\<close>, which the source
  includes and calls but whose code is not part of the codec. The spec describes it as
  "a symmetric stream-transform function taking a key, input buffer, output buffer, and
  length", a "self-inverse stream cipher". The definitions below are the ARC4 algorithm
  that the header names: a key schedule over a 256-byte permutation, then one keystream
  byte per input byte, combined with the input by exclusive or.
\<close>

record mbedtls_arc4_context =
  arc4_x :: nat
  arc4_y :: nat
  arc4_m :: "byte list"

text \<open>The second loop of the key schedule, \<open>i\<close> running over the given indices:
  \<^verbatim>\<open>if (k >= keylen) k = 0; a = m[i]; j = (j + a + key[k]) & 0xFF; m[i] = m[j]; m[j] = a;\<close>\<close>

fun arc4_setup_loop ::
  "byte list \<Rightarrow> nat \<Rightarrow> nat list \<Rightarrow> nat \<Rightarrow> nat \<Rightarrow> byte list \<Rightarrow> byte list" where
  "arc4_setup_loop kb keylen [] j k mm = mm"
| "arc4_setup_loop kb keylen (i # is) j k mm =
     (let k1 = (if k \<ge> keylen then 0 else k);
          a = mm ! i;
          j1 = (j + unat a + unat (kb ! k1)) mod 256;
          m1 = mm[i := mm ! j1];
          m2 = m1[j1 := a]
      in arc4_setup_loop kb keylen is j1 (k1 + 1) m2)"

definition mbedtls_arc4_setup :: "byte list \<Rightarrow> nat \<Rightarrow> mbedtls_arc4_context" where
  "mbedtls_arc4_setup kb keylen =
     \<lparr>arc4_x = 0, arc4_y = 0,
      arc4_m = arc4_setup_loop kb keylen [0..<256] 0 0 (map of_nat [0..<256])\<rparr>"

text \<open>The loop of \<^verbatim>\<open>mbedtls_arc4_crypt\<close> over the bytes it reads:
  \<^verbatim>\<open>x = (x + 1) & 0xFF; a = m[x]; y = (y + a) & 0xFF; b = m[y]; m[x] = b; m[y] = a;
  output[i] = input[i] ^ m[(unsigned char)(a + b)];\<close>\<close>

fun arc4_crypt_loop :: "mbedtls_arc4_context \<Rightarrow> byte list \<Rightarrow> byte list" where
  "arc4_crypt_loop c [] = []"
| "arc4_crypt_loop c (v # vs) =
     (let x1 = (arc4_x c + 1) mod 256; a = arc4_m c ! x1;
          y1 = (arc4_y c + unat a) mod 256; b = arc4_m c ! y1;
          m1 = (arc4_m c)[x1 := b];
          m2 = m1[y1 := a]
      in (v XOR m2 ! unat (a + b)) # arc4_crypt_loop \<lparr>arc4_x = x1, arc4_y = y1, arc4_m = m2\<rparr> vs)"

text \<open>
  \<^verbatim>\<open>mbedtls_arc4_crypt(ctx, length, input, output)\<close> reads \<open>length\<close> bytes of the input
  and writes \<open>length\<close> bytes of the output; the rest of the output buffer keeps its
  contents. The length arrives as an \<^verbatim>\<open>int\<close> converted to \<^verbatim>\<open>size_t\<close>. A length that is
  negative or exceeds either buffer makes the C code access memory outside the buffer:
  that is the result \<open>None\<close>. Input and output may be the same buffer (byte \<open>i\<close> is read
  before byte \<open>i\<close> is written), which is how the codec decrypts in place.
\<close>

definition mbedtls_arc4_crypt ::
  "mbedtls_arc4_context \<Rightarrow> int \<Rightarrow> byte list \<Rightarrow> byte list \<Rightarrow> byte list option" where
  "mbedtls_arc4_crypt c len inp outp =
     (if 0 \<le> len \<and> nat len \<le> length inp \<and> nat len \<le> length outp
      then Some (arc4_crypt_loop c (take (nat len) inp) @ drop (nat len) outp)
      else None)"

subsection \<open>SQLiteEncrypt and SQLiteDecrypt\<close>

text \<open>The result is the content of the output buffer after the call. When \<open>num\<close> is
  zero the body is skipped and the output buffer is not written at all.\<close>

definition SQLiteEncrypt ::
  "SQLiteCipherContext \<Rightarrow> byte list \<Rightarrow> byte list \<Rightarrow> int \<Rightarrow> byte list option" where
  "SQLiteEncrypt ctx inp outp sz =
     (if num ctx \<noteq> 0
      then mbedtls_arc4_crypt (mbedtls_arc4_setup (key ctx) KEYSIZE) sz inp outp
      else Some outp)"

definition SQLiteDecrypt ::
  "SQLiteCipherContext \<Rightarrow> byte list \<Rightarrow> byte list \<Rightarrow> int \<Rightarrow> byte list option" where
  "SQLiteDecrypt ctx inp outp sz = SQLiteEncrypt ctx inp outp sz"

subsection \<open>Crypto blocks, pagers and the store\<close>

text \<open>
  \<^verbatim>\<open>readCtx\<close> and \<^verbatim>\<open>writeCtx\<close> are pointers into the store of cipher contexts (\<open>None\<close> is
  \<^verbatim>\<open>NULL\<close>); two blocks, or the two fields of one block, may hold the same address. The
  scratch buffer belongs to its block alone and is kept by value (\<open>None\<close> is \<^verbatim>\<open>NULL\<close>). The
  back pointer \<^verbatim>\<open>pager\<close> is the index of the database whose pager the block serves.
\<close>

record CodecCryptBlock =
  pager :: nat
  pageSize :: int
  readCtx :: "addr option"
  writeCtx :: "addr option"
  cryptBuffer :: "byte list option"

text \<open>
  Modelled from the spec: the host page manager of \<^verbatim>\<open>sqlite3.c\<close>, which the codec
  includes but does not contain. Of a pager the codec uses its page size and the codec
  state registered with it
  ("retrieval of the currently registered codec state for a database index").
\<close>

record Pager =
  pager_pageSize :: int
  pCodec :: "CodecCryptBlock option"

text \<open>
  The state of a connection: \<open>aDb i\<close> is the pager of database \<open>i\<close>
  (\<^verbatim>\<open>sqlite3BtreePager(db->aDb[i].pBt)\<close>), \<open>ctxs\<close> the allocated cipher contexts,
  \<open>next_addr\<close> the next unused address, \<open>oom\<close> the outcomes of the coming calls of
  \<^verbatim>\<open>sqlite3_malloc\<close> (\<open>True\<close>: the call fails; an exhausted list: every call succeeds), and
  \<open>trace\<close> the transaction calls made so far, latest last.
\<close>

datatype event =
  BtreeBeginTrans int
  | PagerGet nat int
  | PagerWrite nat int
  | BtreeCommit int
  | BtreeRollback

record sqlite3 =
  aDb :: "nat \<Rightarrow> Pager"
  ctxs :: "addr \<rightharpoonup> SQLiteCipherContext"
  next_addr :: addr
  oom :: "bool list"
  trace :: "event list"

text \<open>
  Modelled from the spec: \<^verbatim>\<open>sqlite3_malloc\<close> and \<^verbatim>\<open>sqlite3_free\<close> of \<^verbatim>\<open>sqlite3.c\<close>
  ("allocation failure signals an out-of-memory condition to the caller"). A request
  of no bytes or fewer returns \<^verbatim>\<open>NULL\<close>; any other request may fail.
\<close>

definition sqlite3_malloc :: "sqlite3 \<Rightarrow> int \<Rightarrow> bool \<times> sqlite3" where
  "sqlite3_malloc s n =
     (if n \<le> 0 then (False, s)
      else case oom s of
             [] \<Rightarrow> (True, s)
           | f # fs \<Rightarrow> (\<not> f, s\<lparr>oom := fs\<rparr>))"

definition sqlite3_free :: "sqlite3 \<Rightarrow> addr \<Rightarrow> sqlite3" where
  "sqlite3_free s a = s\<lparr>ctxs := (ctxs s)(a := None)\<rparr>"

subsection \<open>CipherContextNew and CipherContextClone\<close>

text \<open>
  The hash \<^verbatim>\<open>mbedtls_sha1_*\<close> is declared in \<^verbatim>\<open>crypto/mbedtls/sha1.h\<close> and its code is
  not part of the codec: it is the parameter \<open>sha1\<close>, from the hashed bytes to the
  digest. The passphrase
  is a pointer (\<open>None\<close> is \<^verbatim>\<open>NULL\<close>) to a buffer of at least \<open>len\<close> bytes, of which
  the first \<open>len\<close> are hashed. The second test of the passphrase repeats the first, as
  in the source, so its else branch (\<^verbatim>\<open>ctx->num = 0\<close>) is never taken.
\<close>

definition CipherContextNew ::
  "(byte list \<Rightarrow> byte list) \<Rightarrow> sqlite3 \<Rightarrow> byte list option \<Rightarrow> int \<Rightarrow> addr option \<times> sqlite3" where
  "CipherContextNew sha1 s passphrase len =
     (if passphrase = None \<or> len \<le> 0 then (None, s)
      else case sqlite3_malloc s sizeof_SQLiteCipherContext of
             (False, s1) \<Rightarrow> (None, s1)
           | (True, s1) \<Rightarrow>
               (let a = next_addr s1;
                    c = (case passphrase of
                           Some p \<Rightarrow>
                             if len > 0
                             then \<lparr>key = take KEYSIZE (sha1 (take (nat len) p))\<rparr>
                             else \<lparr>key = replicate KEYSIZE 0\<rparr>
                         | None \<Rightarrow> \<lparr>key = replicate KEYSIZE 0\<rparr>)
                in (Some a, s1\<lparr>ctxs := (ctxs s1)(a \<mapsto> c), next_addr := Suc a\<rparr>)))"

text \<open>\<^verbatim>\<open>memcpy(ctx, org, sizeof(SQLiteCipherContext))\<close> into a new cell: the new cell holds
  what the cell at \<open>org\<close> holds.\<close>

definition CipherContextClone :: "sqlite3 \<Rightarrow> addr \<Rightarrow> addr option \<times> sqlite3" where
  "CipherContextClone s org =
     (case sqlite3_malloc s sizeof_SQLiteCipherContext of
        (False, s1) \<Rightarrow> (None, s1)
      | (True, s1) \<Rightarrow>
          (let a = next_addr s1
           in (Some a, s1\<lparr>ctxs := (ctxs s1)(a := ctxs s1 org), next_addr := Suc a\<rparr>)))"

subsection \<open>Creating, updating and freeing a crypto block\<close>

text \<open>
  The result is: whether the function returned a block (\<open>False\<close>: it returned \<^verbatim>\<open>NULL\<close>),
  the block object as the call left it (\<open>None\<close> when there is none), and the store. A
  fresh scratch buffer is uninitialised memory in C; here it is filled with zeros.
\<close>

definition CreateCodeCryptBlock ::
  "sqlite3 \<Rightarrow> addr option \<Rightarrow> nat \<Rightarrow> int \<Rightarrow> CodecCryptBlock option
     \<Rightarrow> bool \<times> CodecCryptBlock option \<times> sqlite3" where
  "CreateCodeCryptBlock s ctx p pageSize0 existing =
     (case (case existing of
              Some blk \<Rightarrow> (Some blk, s)
            | None \<Rightarrow>
                (case sqlite3_malloc s sizeof_CodecCryptBlock of
                   (False, s1) \<Rightarrow> (None, s1)
                 | (True, s1) \<Rightarrow>
                     (Some \<lparr>pager = p, pageSize = 0, readCtx = ctx, writeCtx = ctx,
                            cryptBuffer = None\<rparr>, s1))) of
        (None, s1) \<Rightarrow> (False, None, s1)
      | (Some blk, s1) \<Rightarrow>
          (let pageSize1 = (if pageSize0 = - 1 then pager_pageSize (aDb s1 p) else pageSize0);
               blk1 = blk\<lparr>pager := p\<rparr>
           in if pageSize blk1 \<noteq> pageSize1
              then (case sqlite3_malloc s1 pageSize1 of
                      (False, s2) \<Rightarrow>
                        (False, Some (blk1\<lparr>pageSize := pageSize1, cryptBuffer := None\<rparr>), s2)
                    | (True, s2) \<Rightarrow>
                        (True, Some (blk1\<lparr>pageSize := pageSize1,
                                          cryptBuffer := Some (replicate (nat pageSize1) 0)\<rparr>), s2))
              else (True, Some blk1, s1)))"

definition FreeCodecCryptBlock :: "sqlite3 \<Rightarrow> CodecCryptBlock \<Rightarrow> sqlite3" where
  "FreeCodecCryptBlock s blk =
     (let s1 = (case readCtx blk of Some a \<Rightarrow> sqlite3_free s a | None \<Rightarrow> s)
      in case writeCtx blk of
           Some w \<Rightarrow> if writeCtx blk \<noteq> readCtx blk then sqlite3_free s1 w else s1
         | None \<Rightarrow> s1)"

definition SQLite3CodecSizeChangedCallback ::
  "CodecCryptBlock \<Rightarrow> int \<Rightarrow> int \<Rightarrow> CodecCryptBlock" where
  "SQLite3CodecSizeChangedCallback blk pageSize1 reservedSize =
     (if pageSize blk \<noteq> pageSize1 then blk\<lparr>pageSize := pageSize1\<rparr> else blk)"

text \<open>
  Modelled from the spec: \<^verbatim>\<open>sqlite3PagerSetCodec\<close> of the host, \<^verbatim>\<open>sqlite3.c\<close>
  ("ability to register/replace/remove a codec"; deregistering "triggers its destructor
  callback"; the source notes that it "calls FreeCodecCryptBlock for this block"). The
  destructor registered by this codec is \<^verbatim>\<open>SQLite3CodecFreeCallback\<close>, which calls
  \<open>FreeCodecCryptBlock\<close>.
\<close>

definition SQLite3CodecFreeCallback :: "sqlite3 \<Rightarrow> CodecCryptBlock \<Rightarrow> sqlite3" where
  "SQLite3CodecFreeCallback s blk = FreeCodecCryptBlock s blk"

definition sqlite3PagerSetCodec :: "sqlite3 \<Rightarrow> nat \<Rightarrow> CodecCryptBlock option \<Rightarrow> sqlite3" where
  "sqlite3PagerSetCodec s p codec =
     (let s1 = (case pCodec (aDb s p) of
                  Some old \<Rightarrow> SQLite3CodecFreeCallback s old
                | None \<Rightarrow> s)
      in s1\<lparr>aDb := (aDb s1)(p := (aDb s1 p)\<lparr>pCodec := codec\<rparr>)\<rparr>)"

subsection \<open>The codec callback\<close>

text \<open>
  \<^verbatim>\<open>SQLite3CodecCallback\<close> returns a pointer: the caller's buffer \<open>data\<close> or the block's
  scratch buffer. The result here is which of the two is returned, the content of the
  caller's buffer after the call, and the block after the call (whose scratch buffer
  may have been written). \<open>None\<close> is an access outside a buffer or through a pointer
  to a freed context. A \<^verbatim>\<open>NULL\<close> scratch buffer has room for no byte.
\<close>

datatype retVal = Data | CryptBuffer

definition SQLite3CodecCallback ::
  "(addr \<rightharpoonup> SQLiteCipherContext) \<Rightarrow> CodecCryptBlock option \<Rightarrow> byte list \<Rightarrow> nat \<Rightarrow> int
     \<Rightarrow> (retVal \<times> byte list \<times> CodecCryptBlock option) option" where
  "SQLite3CodecCallback mem pArg data nPageNum nMode =
     (case pArg of
        None \<Rightarrow> Some (Data, data, None)
      | Some blk \<Rightarrow>
          if nMode = 0 \<or> nMode = 2 \<or> nMode = 3 then
            (case readCtx blk of
               None \<Rightarrow> Some (Data, data, Some blk)
             | Some a \<Rightarrow>
                 (case mem a of
                    None \<Rightarrow> None
                  | Some c \<Rightarrow>
                      map_option (\<lambda>d. (Data, d, Some blk))
                        (SQLiteDecrypt c data data (pageSize blk))))
          else if nMode = 6 then
            (case writeCtx blk of
               None \<Rightarrow> Some (Data, data, Some blk)
             | Some a \<Rightarrow>
                 (case mem a of
                    None \<Rightarrow> None
                  | Some c \<Rightarrow>
                      (case cryptBuffer blk of
                         None \<Rightarrow>
                           map_option (\<lambda>b. (CryptBuffer, data, Some blk))
                             (SQLiteEncrypt c data [] (pageSize blk))
                       | Some buf \<Rightarrow>
                           map_option (\<lambda>b. (CryptBuffer, data, Some (blk\<lparr>cryptBuffer := Some b\<rparr>)))
                             (SQLiteEncrypt c data buf (pageSize blk)))))
          else if nMode = 7 then
            (case readCtx blk of
               None \<Rightarrow> Some (Data, data, Some blk)
             | Some a \<Rightarrow>
                 (case mem a of
                    None \<Rightarrow> None
                  | Some c \<Rightarrow>
                      (case cryptBuffer blk of
                         None \<Rightarrow>
                           map_option (\<lambda>b. (CryptBuffer, data, Some blk))
                             (SQLiteEncrypt c data [] (pageSize blk))
                       | Some buf \<Rightarrow>
                           map_option (\<lambda>b. (CryptBuffer, data, Some (blk\<lparr>cryptBuffer := Some b\<rparr>)))
                             (SQLiteEncrypt c data buf (pageSize blk)))))
          else Some (Data, data, Some blk))"

subsection \<open>Attaching a key\<close>

text \<open>
  \<^verbatim>\<open>sqlite3CodecAttach\<close> in two parts. The first (the \<^verbatim>\<open>if\<close> on the key, lines 317 to
  349) either returns at once (\<open>Inl\<close>, with the status code) or yields the context for
  the new block (\<open>Inr\<close>). The second (lines 353 to 366) creates and registers the
  block. \<^verbatim>\<open>rc\<close> starts as \<^verbatim>\<open>SQLITE_ERROR\<close>, which is what is returned should \<^verbatim>\<open>ctx\<close>
  be \<^verbatim>\<open>NULL\<close> there.
\<close>

definition attach_ctx ::
  "(byte list \<Rightarrow> byte list) \<Rightarrow> sqlite3 \<Rightarrow> nat \<Rightarrow> byte list option \<Rightarrow> int
     \<Rightarrow> (int \<times> sqlite3) + (addr option \<times> sqlite3)" where
  "attach_ctx sha1 s nDb pKey nKeyLen =
     (if pKey = None \<or> nKeyLen = 0 then
        (if nDb = 0 then Inl (SQLITE_OK, s)
         else
           (case pCodec (aDb s 0) of
              None \<Rightarrow> Inl (SQLITE_OK, s)
            | Some pBlock \<Rightarrow>
                (case readCtx pBlock of
                   None \<Rightarrow> Inl (SQLITE_OK, s)
                 | Some r \<Rightarrow>
                     (case CipherContextClone s r of
                        (None, s1) \<Rightarrow> Inl (SQLITE_NOMEM, s1)
                      | (Some a, s1) \<Rightarrow> Inr (Some a, s1)))))
      else
        (case CipherContextNew sha1 s pKey nKeyLen of
           (None, s1) \<Rightarrow> Inl (SQLITE_NOMEM, s1)
         | (Some a, s1) \<Rightarrow> Inr (Some a, s1)))"

definition sqlite3CodecAttach ::
  "(byte list \<Rightarrow> byte list) \<Rightarrow> sqlite3 \<Rightarrow> nat \<Rightarrow> byte list option \<Rightarrow> int \<Rightarrow> int \<times> sqlite3" where
  "sqlite3CodecAttach sha1 s nDb pKey nKeyLen =
     (case attach_ctx sha1 s nDb pKey nKeyLen of
        Inl r \<Rightarrow> r
      | Inr (ctx, s1) \<Rightarrow>
          if ctx \<noteq> None then
            (case CreateCodeCryptBlock s1 ctx nDb (- 1) None of
               (True, Some blk, s2) \<Rightarrow> (SQLITE_OK, sqlite3PagerSetCodec s2 nDb (Some blk))
             | (_, _, s2) \<Rightarrow> (SQLITE_NOMEM, s2))
          else (SQLITE_ERROR, s1))"

definition sqlite3_key_v2 ::
  "(byte list \<Rightarrow> byte list) \<Rightarrow> sqlite3 \<Rightarrow> byte list option \<Rightarrow> int \<Rightarrow> int \<times> sqlite3" where
  "sqlite3_key_v2 sha1 s pKey nKey = sqlite3CodecAttach sha1 s 0 pKey nKey"

subsection \<open>Key retrieval\<close>

text \<open>
  \<^verbatim>\<open>ppKey\<close> and \<^verbatim>\<open>pnKeyLen\<close> are out-parameters: \<open>None\<close> is a \<^verbatim>\<open>NULL\<close> out-parameter,
  \<open>Some v\<close> one whose cell holds \<open>v\<close>. The result is the two cells after the call.
\<close>

definition sqlite3CodecGetKey ::
  "sqlite3 \<Rightarrow> nat \<Rightarrow> addr option option \<Rightarrow> int option \<Rightarrow> addr option option \<times> int option" where
  "sqlite3CodecGetKey s nDb ppKey pnKeyLen =
     (let pBlock = pCodec (aDb s 0)
      in ((if ppKey \<noteq> None then Some None else ppKey),
          (if pnKeyLen \<noteq> None \<and> pBlock \<noteq> None then Some 1 else pnKeyLen)))"

subsection \<open>Rekey\<close>

text \<open>
  Modelled from the spec: what the host answers during a rekey ("transaction
  begin/commit/rollback; current page count; ability to mark a page dirty"); these
  functions belong to the host, \<^verbatim>\<open>sqlite3.c\<close>. \<open>MJ_PGNO\<close> is the page that the macro
  \<^verbatim>\<open>PAGER_MJ_PGNO\<close> names, \<open>Pagecount\<close> the page count (never negative), and the other
  fields are the status codes that the calls return, per page for
  \<^verbatim>\<open>sqlite3PagerGet\<close> and \<^verbatim>\<open>sqlite3PagerWrite\<close>.
\<close>

record host =
  BeginTrans_rc :: int
  Pagecount :: nat
  MJ_PGNO :: nat
  PagerGet_rc :: "nat \<Rightarrow> int"
  PagerWrite_rc :: "nat \<Rightarrow> int"
  Commit_rc :: int

text \<open>The loop \<^verbatim>\<open>for (n = 1; n <= nPage; n++)\<close>, \<open>n\<close> running over the given page
  numbers; \<open>rc\<close> is assigned anew for every page that is not skipped.\<close>

fun rekey_loop :: "host \<Rightarrow> nat \<Rightarrow> nat list \<Rightarrow> int \<Rightarrow> event list \<Rightarrow> int \<times> event list" where
  "rekey_loop h nSkip [] rc tr = (rc, tr)"
| "rekey_loop h nSkip (n # ns) rc tr =
     (if n = nSkip then rekey_loop h nSkip ns rc tr
      else
        (let rc1 = PagerGet_rc h n
         in if rc1 = 0
            then (let rc2 = PagerWrite_rc h n
                  in rekey_loop h nSkip ns rc2 (tr @ [PagerGet n rc1, PagerWrite n rc2]))
            else rekey_loop h nSkip ns rc1 (tr @ [PagerGet n rc1])))"

text \<open>
  The block that rekey works on is the one registered with the pager of database 0, so
  every assignment to a field of \<^verbatim>\<open>block\<close> is also seen through the pager. Page
  contents are not part of this state: what the host does to the pages during the
  transaction is recorded as the calls in \<open>trace\<close>.
\<close>

definition set_pCodec :: "sqlite3 \<Rightarrow> nat \<Rightarrow> CodecCryptBlock \<Rightarrow> sqlite3" where
  "set_pCodec s p blk = s\<lparr>aDb := (aDb s)(p := (aDb s p)\<lparr>pCodec := Some blk\<rparr>)\<rparr>"

text \<open>Lines 460 to 478: derive the new context, then create and register a block
  (\<open>Inl\<close>: the early return of \<^verbatim>\<open>SQLITE_NOMEM\<close>) or change the write key of the
  registered one.\<close>

definition rekey_block ::
  "(byte list \<Rightarrow> byte list) \<Rightarrow> sqlite3 \<Rightarrow> byte list option \<Rightarrow> int
     \<Rightarrow> sqlite3 + (CodecCryptBlock \<times> sqlite3)" where
  "rekey_block sha1 s pKey nKey =
     (case CipherContextNew sha1 s pKey nKey of
        (ctx, s1) \<Rightarrow>
          (case pCodec (aDb s1 0) of
             None \<Rightarrow>
               (case CreateCodeCryptBlock s1 ctx 0 (- 1) None of
                  (True, Some blk, s2) \<Rightarrow>
                    (let blk1 = blk\<lparr>readCtx := None\<rparr>
                     in Inr (blk1, sqlite3PagerSetCodec s2 0 (Some blk1)))
                | (_, _, s2) \<Rightarrow> Inl s2)
           | Some blk \<Rightarrow>
               (let blk1 = blk\<lparr>writeCtx := ctx\<rparr>
                in Inr (blk1, set_pCodec s1 0 blk1))))"

text \<open>Lines 484 to 514: begin the transaction, rewrite the pages, then commit or roll
  back. The result is the status code and the calls made.\<close>

definition rekey_transaction :: "host \<Rightarrow> event list \<Rightarrow> int \<times> event list" where
  "rekey_transaction h tr =
     (let rc0 = BeginTrans_rc h;
          tr0 = tr @ [BtreeBeginTrans rc0];
          (rc1, tr1) =
            (if rc0 = SQLITE_OK
             then rekey_loop h (MJ_PGNO h) [1..<Suc (Pagecount h)] rc0 tr0
             else (rc0, tr0))
      in if rc1 = SQLITE_OK
         then (Commit_rc h, tr1 @ [BtreeCommit (Commit_rc h)])
         else (rc1, tr1 @ [BtreeRollback]))"

text \<open>Lines 518 to 539: settle the two keys of the block according to the status
  code, and remove the codec when both are \<^verbatim>\<open>NULL\<close>.\<close>

definition rekey_finish :: "sqlite3 \<Rightarrow> CodecCryptBlock \<Rightarrow> int \<Rightarrow> sqlite3" where
  "rekey_finish s blk rc =
     (let (blk1, s1) =
            (if rc = SQLITE_OK
             then (blk\<lparr>readCtx := writeCtx blk\<rparr>,
                   (case readCtx blk of Some a \<Rightarrow> sqlite3_free s a | None \<Rightarrow> s))
             else (blk\<lparr>writeCtx := readCtx blk\<rparr>,
                   (case writeCtx blk of Some a \<Rightarrow> sqlite3_free s a | None \<Rightarrow> s)));
          s2 = set_pCodec s1 0 blk1
      in if readCtx blk1 = None \<and> writeCtx blk1 = None
         then sqlite3PagerSetCodec s2 0 None
         else s2)"

definition sqlite3_rekey_v2 ::
  "(byte list \<Rightarrow> byte list) \<Rightarrow> host \<Rightarrow> sqlite3 \<Rightarrow> byte list option \<Rightarrow> int \<Rightarrow> int \<times> sqlite3" where
  "sqlite3_rekey_v2 sha1 h s pKey nKey =
     (case rekey_block sha1 s pKey nKey of
        Inl s2 \<Rightarrow> (SQLITE_NOMEM, s2)
      | Inr (blk, s2) \<Rightarrow>
          (case rekey_transaction h (trace s2) of
             (rc, tr) \<Rightarrow> (rc, rekey_finish (s2\<lparr>trace := tr\<rparr>) blk rc)))"

text \<open>
  Modelled from the spec: the host changing the page size of a pager ("invoked by the
  page manager whenever the page size changes"): the pager takes the new size and the
  registered codec is notified through its size-change callback.
\<close>

definition sqlite3PagerSetPagesize :: "sqlite3 \<Rightarrow> nat \<Rightarrow> int \<Rightarrow> sqlite3" where
  "sqlite3PagerSetPagesize s p n =
     s\<lparr>aDb := (aDb s)(p :=
          \<lparr>pager_pageSize = n,
           pCodec = map_option (\<lambda>blk. SQLite3CodecSizeChangedCallback blk n 0) (pCodec (aDb s p))\<rparr>)\<rparr>"

subsection \<open>Predicates on states\<close>

text \<open>Keys at rest: the two key pointers of every registered block are both \<^verbatim>\<open>NULL\<close>
  or point to the same context.\<close>

definition keys_at_rest :: "sqlite3 \<Rightarrow> bool" where
  "keys_at_rest s \<longleftrightarrow>
     (\<forall>i. case pCodec (aDb s i) of None \<Rightarrow> True | Some blk \<Rightarrow> readCtx blk = writeCtx blk)"

text \<open>The next \<open>k\<close> calls of \<^verbatim>\<open>sqlite3_malloc\<close> do not run out of memory.\<close>

definition allocs_succeed :: "nat \<Rightarrow> sqlite3 \<Rightarrow> bool" where
  "allocs_succeed k s \<longleftrightarrow> True \<notin> set (take k (oom s))"

text \<open>Every allocated context lies below the next unused address.\<close>

definition store_ok :: "sqlite3 \<Rightarrow> bool" where
  "store_ok s \<longleftrightarrow> (\<forall>a. ctxs s a \<noteq> None \<longrightarrow> a < next_addr s)"

text \<open>The key of database \<open>i\<close>: the read key of its registered block, if any.\<close>

definition key_of :: "sqlite3 \<Rightarrow> nat \<Rightarrow> addr option" where
  "key_of s i = (case pCodec (aDb s i) of None \<Rightarrow> None | Some blk \<Rightarrow> readCtx blk)"

text \<open>Keys at rest and owned: moreover every key of a database is an allocated context,
  and no two databases have the same context as their key.\<close>

definition owned :: "sqlite3 \<Rightarrow> bool" where
  "owned s \<longleftrightarrow>
     keys_at_rest s \<and> store_ok s
     \<and> (\<forall>i a. key_of s i = Some a \<longrightarrow> ctxs s a \<noteq> None)
     \<and> (\<forall>i j a. key_of s i = Some a \<longrightarrow> key_of s j = Some a \<longrightarrow> i = j)"

subsection \<open>Example inputs\<close>

text \<open>A connection whose databases have pages of 1024 bytes and no codec, with nothing
  allocated and no allocation failure ahead.\<close>

definition plain_db :: sqlite3 where
  "plain_db = \<lparr>aDb = (\<lambda>i. \<lparr>pager_pageSize = 1024, pCodec = None\<rparr>), ctxs = Map.empty,
               next_addr = 0, oom = [], trace = []\<rparr>"

text \<open>A context with a key that is not all zero, and one whose key is all zero.\<close>

definition some_ctx :: SQLiteCipherContext where
  "some_ctx = \<lparr>key = [1, 2, 3, 4, 5, 6, 7, 8]\<rparr>"

definition zero_ctx :: SQLiteCipherContext where
  "zero_ctx = \<lparr>key = [0, 0, 0, 0, 0, 0, 0, 0]\<rparr>"

text \<open>A block for pages of 1024 bytes whose two keys are the context at address 0, and a
  connection whose database 0 has it registered.\<close>

definition some_block :: CodecCryptBlock where
  "some_block = \<lparr>pager = 0, pageSize = 1024, readCtx = Some 0, writeCtx = Some 0,
                 cryptBuffer = Some (replicate 1024 0)\<rparr>"

definition keyed_db :: sqlite3 where
  "keyed_db = \<lparr>aDb = (\<lambda>i. \<lparr>pager_pageSize = 1024,
                               pCodec = (if i = 0 then Some some_block else None)\<rparr>),
               ctxs = [0 \<mapsto> some_ctx], next_addr = 1, oom = [], trace = []\<rparr>"

text \<open>Stand-ins for the digest function in closed examples: one whose digest repeats
  the length of the passphrase, and one that gives the SHA-1 digest of the one-byte
  passphrase \<open>[1]\<close>, \<^verbatim>\<open>bf8b4530d8d246dd74ac53a13471bba17941dff7\<close>; \<open>key_of_01\<close> is the
  context with the first eight bytes of that digest.\<close>

definition length_digest :: "byte list \<Rightarrow> byte list" where
  "length_digest p = replicate 20 (of_nat (length p))"



text \<open>A block for pages of 2 bytes whose read key is the context at address 0 and whose
  write key is the context at address 1, with \<open>[9, 9]\<close> in its scratch buffer.\<close>

definition zero_key_block :: CodecCryptBlock where
  "zero_key_block = \<lparr>pager = 0, pageSize = 2, readCtx = Some 0, writeCtx = Some 1,
                     cryptBuffer = Some [9, 9]\<rparr>"

text \<open>A host with two pages on which reading page 1 fails with \<^verbatim>\<open>SQLITE_NOMEM\<close> (7)
  and everything else succeeds; the skipped page is the one holding the pending byte,
  \<^verbatim>\<open>0x40000000 / 1024 + 1\<close>.\<close>

definition page1_fails :: host where
  "page1_fails = \<lparr>BeginTrans_rc = 0, Pagecount = 2, MJ_PGNO = 1048577,
                  PagerGet_rc = (\<lambda>n. if n = 1 then 7 else 0),
                  PagerWrite_rc = (\<lambda>n. 0), Commit_rc = 0\<rparr>"

section \<open>Properties\<close>

subsection \<open>The cipher and the transforms\<close>

lemma num_zero_iff: "num ctx = 0 \<longleftrightarrow> (\<forall>b \<in> set (key ctx). b = 0)"
proof -
  have "foldr (\<lambda>b n. unat b + 256 * n) ks 0 = 0 \<longleftrightarrow> (\<forall>b \<in> set ks. b = 0)" for ks :: "byte list"
    by (induction ks) (auto simp: unat_eq_0)
  then show ?thesis by (simp add: num_def)
qed

lemma num_some_ctx: "num some_ctx \<noteq> 0"
  by (simp add: num_zero_iff some_ctx_def)

lemma num_zero_ctx: "num zero_ctx = 0"
  by (simp add: num_zero_iff zero_ctx_def)

lemma length_arc4_crypt_loop: "length (arc4_crypt_loop c vs) = length vs"
  by (induction vs arbitrary: c) (simp_all add: Let_def)

lemma arc4_crypt_loop_involution: "arc4_crypt_loop c (arc4_crypt_loop c vs) = vs"
  by (induction vs arbitrary: c) (simp_all add: Let_def word_bw_assocs)

lemma arc4_crypt_loop_inj: "arc4_crypt_loop c vs = arc4_crypt_loop c ws \<Longrightarrow> vs = ws"
  by (metis arc4_crypt_loop_involution)

text \<open>The cipher as modelled gives the published answer for the key \<open>Key\<close> and the
  text \<open>Plaintext\<close>.\<close>

lemma arc4_known_answer:
  "mbedtls_arc4_crypt (mbedtls_arc4_setup [0x4b, 0x65, 0x79] 3) 9
     [0x50, 0x6c, 0x61, 0x69, 0x6e, 0x74, 0x65, 0x78, 0x74] [0, 0, 0, 0, 0, 0, 0, 0, 0] =
   Some [0xbb, 0xf3, 0x16, 0xe8, 0xd9, 0x40, 0xaf, 0x0a, 0xd3]"
  by code_simp

lemma SQLiteEncrypt_nonzero:
  assumes "num c \<noteq> 0" and "0 \<le> n" and "nat n \<le> length inp" and "nat n \<le> length outp"
  shows "SQLiteEncrypt c inp outp n =
           Some (arc4_crypt_loop (mbedtls_arc4_setup (key c) KEYSIZE) (take (nat n) inp)
                 @ drop (nat n) outp)"
  using assms by (simp add: SQLiteEncrypt_def mbedtls_arc4_crypt_def)

lemma SQLiteEncrypt_in_bounds:
  assumes "0 \<le> n" and "nat n \<le> length inp" and "nat n \<le> length outp"
  shows "\<exists>e. SQLiteEncrypt c inp outp n = Some e \<and> length e = length outp"
  using assms
  by (simp add: SQLiteEncrypt_def mbedtls_arc4_crypt_def length_arc4_crypt_loop)

subsection \<open>Key retrieval\<close>

text \<open>
  C10. \<^verbatim>\<open>sqlite3CodecGetKey\<close> never reveals key material. A key pointer that the caller
  passes is set to \<^verbatim>\<open>NULL\<close>; a key length that the caller passes is set to 1 when
  database 0 has a crypto block registered and is left as it was otherwise. The result
  depends neither on the requested database index nor on the stored contexts.
\<close>

theorem getkey_reveals_no_key:
  "sqlite3CodecGetKey s nDb ppKey pnKeyLen =
     (map_option (\<lambda>v. None) ppKey,
      (if pCodec (aDb s 0) = None then pnKeyLen else map_option (\<lambda>l. 1) pnKeyLen))
   \<and> sqlite3CodecGetKey (s\<lparr>ctxs := mem\<rparr>) nDb' ppKey pnKeyLen =
       sqlite3CodecGetKey s nDb ppKey pnKeyLen"
  by (cases ppKey; cases pnKeyLen) (simp_all add: sqlite3CodecGetKey_def)

theorem getkey_reveals_no_key_witness:
  "sqlite3CodecGetKey keyed_db 1 (Some (Some 5)) (Some 0) = (Some None, Some 1)
   \<and> sqlite3CodecGetKey plain_db 1 (Some (Some 5)) (Some 0) = (Some None, Some 0)
   \<and> sqlite3CodecGetKey (keyed_db\<lparr>ctxs := [0 \<mapsto> zero_ctx]\<rparr>) 0 (Some (Some 5)) (Some 0) =
       sqlite3CodecGetKey keyed_db 1 (Some (Some 5)) (Some 0)"
  using getkey_reveals_no_key [of keyed_db 1 "Some (Some 5)" "Some 0" "[0 \<mapsto> zero_ctx]" 0]
        getkey_reveals_no_key [of plain_db 1 "Some (Some 5)" "Some 0"]
  by (simp add: keyed_db_def plain_db_def)

subsection \<open>The journal is written under the read key\<close>

text \<open>
  C3, the claim as stated fails. The block has a read key, a context whose key bytes
  are all zero. In mode 7 the callback returns the scratch buffer, but nothing was
  written to it: it holds \<open>[9, 9]\<close> as before, for the page \<open>[1, 2]\<close> and for the
  page \<open>[3, 4]\<close> alike, whereas the cipher under that key maps the two pages to
  different outputs. The page was not encrypted.
\<close>

theorem zero_read_key_journal_counterexample:
  "readCtx zero_key_block = Some 0
   \<and> SQLite3CodecCallback [0 \<mapsto> zero_ctx, 1 \<mapsto> some_ctx] (Some zero_key_block) [1, 2] 1 7 =
       Some (CryptBuffer, [1, 2], Some zero_key_block)
   \<and> SQLite3CodecCallback [0 \<mapsto> zero_ctx, 1 \<mapsto> some_ctx] (Some zero_key_block) [3, 4] 1 7 =
       Some (CryptBuffer, [3, 4], Some zero_key_block)
   \<and> cryptBuffer zero_key_block = Some [9, 9]
   \<and> mbedtls_arc4_crypt (mbedtls_arc4_setup (key zero_ctx) KEYSIZE) 2 [1, 2] [9, 9] \<noteq>
       mbedtls_arc4_crypt (mbedtls_arc4_setup (key zero_ctx) KEYSIZE) 2 [3, 4] [9, 9]"
proof -
  have "arc4_crypt_loop c [1, 2] \<noteq> arc4_crypt_loop c [3, 4]" for c
    using arc4_crypt_loop_inj [of c "[1, 2]" "[3, 4]"]
    by (simp del: arc4_crypt_loop.simps) blast
  then show ?thesis
    by (simp add: SQLite3CodecCallback_def zero_key_block_def SQLiteEncrypt_def num_zero_ctx
          mbedtls_arc4_crypt_def del: arc4_crypt_loop.simps)
qed

text \<open>
  C3, amended. For a block whose read-key context has a key byte that is not zero, with
  page and scratch buffer of at least the page size: the codec callback in mode 7
  writes the ARC4 image of the page under the read key into the scratch buffer and
  returns the scratch buffer, leaving the page as it was. The write key plays no part,
  whatever it is. Undoing the journal encryption (mode 0) on that content gives the page
  bytes back under the same read key.
\<close>

theorem journal_write_enciphers_under_read_key:
  assumes "readCtx blk = Some a" and "mem a = Some c" and "\<exists>b \<in> set (key c). b \<noteq> 0"
    and "cryptBuffer blk = Some buf"
    and "0 \<le> pageSize blk" and "nat (pageSize blk) \<le> length data"
    and "nat (pageSize blk) \<le> length buf"
    and "e = arc4_crypt_loop (mbedtls_arc4_setup (key c) KEYSIZE) (take (nat (pageSize blk)) data)
             @ drop (nat (pageSize blk)) buf"
  shows "SQLite3CodecCallback mem (Some (blk\<lparr>writeCtx := w\<rparr>)) data n 7 =
           Some (CryptBuffer, data, Some (blk\<lparr>writeCtx := w, cryptBuffer := Some e\<rparr>))
         \<and> SQLite3CodecCallback mem (Some (blk\<lparr>writeCtx := w, cryptBuffer := Some e\<rparr>)) e n 0 =
           Some (Data, take (nat (pageSize blk)) data @ drop (nat (pageSize blk)) buf,
                 Some (blk\<lparr>writeCtx := w, cryptBuffer := Some e\<rparr>))"
proof -
  have nz: "num c \<noteq> 0" using assms(3) by (simp add: num_zero_iff)
  have enc: "SQLiteEncrypt c data buf (pageSize blk) = Some e"
    using SQLiteEncrypt_nonzero [OF nz assms(5-7)] assms(8) by simp
  have le: "nat (pageSize blk) \<le> length e"
    using assms(6,7,8) by (simp add: length_arc4_crypt_loop)
  have tk: "take (nat (pageSize blk)) e =
      arc4_crypt_loop (mbedtls_arc4_setup (key c) KEYSIZE) (take (nat (pageSize blk)) data)"
    using assms(6,8) by (simp add: length_arc4_crypt_loop)
  have dr: "drop (nat (pageSize blk)) e = drop (nat (pageSize blk)) buf"
    using assms(6,8) by (simp add: length_arc4_crypt_loop)
  have dec: "SQLiteDecrypt c e e (pageSize blk) =
      Some (take (nat (pageSize blk)) data @ drop (nat (pageSize blk)) buf)"
    using SQLiteEncrypt_nonzero [OF nz assms(5) le le]
    by (simp add: SQLiteDecrypt_def tk dr arc4_crypt_loop_involution)
  show ?thesis
    using assms(1,2,4) enc dec by (simp add: SQLite3CodecCallback_def)
qed

theorem journal_write_enciphers_under_read_key_witness:
  "readCtx some_block = Some 0 \<and> [0 \<mapsto> some_ctx, 1 \<mapsto> zero_ctx] (0::addr) = Some some_ctx
   \<and> (\<exists>b \<in> set (key some_ctx). b \<noteq> 0)
   \<and> cryptBuffer some_block = Some (replicate 1024 0)
   \<and> 0 \<le> pageSize some_block \<and> nat (pageSize some_block) \<le> length (replicate 1024 (7::byte))
   \<and> SQLite3CodecCallback [0 \<mapsto> some_ctx, 1 \<mapsto> zero_ctx]
        (Some (some_block\<lparr>writeCtx := Some 1\<rparr>)) (replicate 1024 7) 3 7 =
       Some (CryptBuffer, replicate 1024 7,
             Some (some_block\<lparr>writeCtx := Some 1,
                     cryptBuffer := Some (arc4_crypt_loop (mbedtls_arc4_setup (key some_ctx) KEYSIZE)
                                            (replicate 1024 7))\<rparr>))
   \<and> SQLite3CodecCallback [0 \<mapsto> some_ctx, 1 \<mapsto> zero_ctx]
        (Some (some_block\<lparr>writeCtx := Some 1,
                     cryptBuffer := Some (arc4_crypt_loop (mbedtls_arc4_setup (key some_ctx) KEYSIZE)
                                            (replicate 1024 7))\<rparr>))
        (arc4_crypt_loop (mbedtls_arc4_setup (key some_ctx) KEYSIZE) (replicate 1024 7)) 3 0 =
       Some (Data, replicate 1024 7,
             Some (some_block\<lparr>writeCtx := Some 1,
                     cryptBuffer := Some (arc4_crypt_loop (mbedtls_arc4_setup (key some_ctx) KEYSIZE)
                                            (replicate 1024 7))\<rparr>))"
proof -
  have h: "readCtx some_block = Some 0" "[0 \<mapsto> some_ctx, 1 \<mapsto> zero_ctx] (0::addr) = Some some_ctx"
    "\<exists>b \<in> set (key some_ctx). b \<noteq> 0" "cryptBuffer some_block = Some (replicate 1024 0)"
    "0 \<le> pageSize some_block" "nat (pageSize some_block) \<le> length (replicate 1024 (7::byte))"
    "nat (pageSize some_block) \<le> length (replicate 1024 (0::byte))"
    by (simp_all add: some_block_def some_ctx_def)
  have e: "arc4_crypt_loop (mbedtls_arc4_setup (key some_ctx) KEYSIZE) (replicate 1024 7) =
      arc4_crypt_loop (mbedtls_arc4_setup (key some_ctx) KEYSIZE)
        (take (nat (pageSize some_block)) (replicate 1024 7))
      @ drop (nat (pageSize some_block)) (replicate 1024 0)"
    by (simp add: some_block_def del: arc4_crypt_loop.simps replicate.simps)
  have t: "take (nat (pageSize some_block)) (replicate 1024 (7::byte))
           @ drop (nat (pageSize some_block)) (replicate 1024 0) = replicate 1024 7"
    by (simp add: some_block_def)
  have "SQLite3CodecCallback [0 \<mapsto> some_ctx, 1 \<mapsto> zero_ctx]
        (Some (some_block\<lparr>writeCtx := Some 1\<rparr>)) (replicate 1024 7) 3 7 =
       Some (CryptBuffer, replicate 1024 7,
             Some (some_block\<lparr>writeCtx := Some 1,
                     cryptBuffer := Some (arc4_crypt_loop (mbedtls_arc4_setup (key some_ctx) KEYSIZE)
                                            (replicate 1024 7))\<rparr>))
   \<and> SQLite3CodecCallback [0 \<mapsto> some_ctx, 1 \<mapsto> zero_ctx]
        (Some (some_block\<lparr>writeCtx := Some 1,
                     cryptBuffer := Some (arc4_crypt_loop (mbedtls_arc4_setup (key some_ctx) KEYSIZE)
                                            (replicate 1024 7))\<rparr>))
        (arc4_crypt_loop (mbedtls_arc4_setup (key some_ctx) KEYSIZE) (replicate 1024 7)) 3 0 =
       Some (Data, take (nat (pageSize some_block)) (replicate 1024 (7::byte))
                   @ drop (nat (pageSize some_block)) (replicate 1024 0),
             Some (some_block\<lparr>writeCtx := Some 1,
                     cryptBuffer := Some (arc4_crypt_loop (mbedtls_arc4_setup (key some_ctx) KEYSIZE)
                                            (replicate 1024 7))\<rparr>))"
    by (rule journal_write_enciphers_under_read_key
          [of some_block 0 "[0 \<mapsto> some_ctx, 1 \<mapsto> zero_ctx]" some_ctx "replicate 1024 0"
             "replicate 1024 7"
             "arc4_crypt_loop (mbedtls_arc4_setup (key some_ctx) KEYSIZE) (replicate 1024 7)"
             "Some 1" 3, OF h e])
  then show ?thesis unfolding t using h(1-6) by (intro conjI) blast+
qed

subsection \<open>A key of zero bytes is not a cipher key\<close>

text \<open>
  C2, the claim as stated fails. With the all-zero key the transform writes nothing:
  the output buffer keeps its content \<open>[0]\<close> for the page \<open>[1]\<close> and for the page
  \<open>[2]\<close>, whereas the cipher under that key maps the two pages to different outputs,
  so the transform is not the cipher on both.
\<close>

theorem zero_key_not_enciphered_counterexample:
  "SQLiteEncrypt zero_ctx [1] [0] 1 = Some [0] \<and> SQLiteEncrypt zero_ctx [2] [0] 1 = Some [0]
   \<and> SQLiteDecrypt zero_ctx [1] [0] 1 = Some [0]
   \<and> mbedtls_arc4_crypt (mbedtls_arc4_setup (key zero_ctx) KEYSIZE) 1 [1] [0] \<noteq>
       mbedtls_arc4_crypt (mbedtls_arc4_setup (key zero_ctx) KEYSIZE) 1 [2] [0]
   \<and> \<not> (SQLiteEncrypt zero_ctx [1] [0] 1 =
            mbedtls_arc4_crypt (mbedtls_arc4_setup (key zero_ctx) KEYSIZE) 1 [1] [0]
          \<and> SQLiteEncrypt zero_ctx [2] [0] 1 =
            mbedtls_arc4_crypt (mbedtls_arc4_setup (key zero_ctx) KEYSIZE) 1 [2] [0])"
proof -
  have "arc4_crypt_loop c [1] \<noteq> arc4_crypt_loop c [2]" for c
    using arc4_crypt_loop_inj [of c "[1]" "[2]"] by auto
  then show ?thesis
    by (simp add: SQLiteEncrypt_def SQLiteDecrypt_def num_zero_ctx mbedtls_arc4_crypt_def
             del: arc4_crypt_loop.simps)
qed

text \<open>
  C2, amended. For a context with a key byte that is not zero, \<open>SQLiteEncrypt\<close> and
  \<open>SQLiteDecrypt\<close> are the cipher under the key of the context. For a context whose
  key bytes are all zero, both leave the output buffer as it was.
\<close>

theorem transform_applies_cipher_iff_key_nonzero:
  "((\<exists>b \<in> set (key ctx). b \<noteq> 0) \<longrightarrow>
      SQLiteEncrypt ctx inp outp n =
        mbedtls_arc4_crypt (mbedtls_arc4_setup (key ctx) KEYSIZE) n inp outp
      \<and> SQLiteDecrypt ctx inp outp n =
        mbedtls_arc4_crypt (mbedtls_arc4_setup (key ctx) KEYSIZE) n inp outp)
   \<and> ((\<forall>b \<in> set (key ctx). b = 0) \<longrightarrow>
      SQLiteEncrypt ctx inp outp n = Some outp \<and> SQLiteDecrypt ctx inp outp n = Some outp)"
  using num_zero_iff [of ctx] by (auto simp: SQLiteEncrypt_def SQLiteDecrypt_def)

theorem transform_applies_cipher_iff_key_nonzero_witness:
  "(\<exists>b \<in> set (key some_ctx). b \<noteq> 0)
   \<and> SQLiteEncrypt some_ctx [1, 2] [0, 0] 2 =
       mbedtls_arc4_crypt (mbedtls_arc4_setup (key some_ctx) KEYSIZE) 2 [1, 2] [0, 0]
   \<and> set (key zero_ctx) = {0}
   \<and> SQLiteEncrypt zero_ctx [1, 2] [0, 0] 2 = Some [0, 0]"
  using transform_applies_cipher_iff_key_nonzero [of some_ctx "[1, 2]" "[0, 0]" 2]
        transform_applies_cipher_iff_key_nonzero [of zero_ctx "[1, 2]" "[0, 0]" 2]
  by (simp add: some_ctx_def zero_ctx_def)


subsection \<open>Key derivation\<close>

lemma sqlite3_malloc_frame:
  "sqlite3_malloc s n = (ok, s1) \<Longrightarrow>
     aDb s1 = aDb s \<and> ctxs s1 = ctxs s \<and> next_addr s1 = next_addr s \<and> trace s1 = trace s"
  by (auto simp: sqlite3_malloc_def split: if_splits list.splits)

text \<open>
  C9. \<^verbatim>\<open>CipherContextNew\<close> returns \<^verbatim>\<open>NULL\<close> for an absent passphrase and for a length
  that is not positive. For a passphrase of positive length, when the allocation of
  the context succeeds, it returns a new context whose key is the first \<open>KEYSIZE\<close>
  bytes of the digest of the passphrase. The key is a function of the passphrase alone:
  two calls with the same passphrase, in whatever states, that return contexts return
  contexts with the same key.
\<close>

theorem key_is_digest_prefix:
  "(pp = None \<or> len \<le> 0 \<longrightarrow> CipherContextNew sha1 s pp len = (None, s))
   \<and> (0 < len \<and> fst (sqlite3_malloc s sizeof_SQLiteCipherContext) \<longrightarrow>
        (\<exists>s'. CipherContextNew sha1 s (Some p) len = (Some (next_addr s), s')
             \<and> ctxs s' (next_addr s) = Some \<lparr>key = take KEYSIZE (sha1 (take (nat len) p))\<rparr>))
   \<and> (0 < len \<and> CipherContextNew sha1 s (Some p) len = (Some a, s')
        \<and> CipherContextNew sha1 t (Some p) len = (Some b, t') \<longrightarrow>
        ctxs s' a = ctxs t' b
        \<and> ctxs s' a = Some \<lparr>key = take KEYSIZE (sha1 (take (nat len) p))\<rparr>)"
proof (intro conjI impI)
  assume "pp = None \<or> len \<le> 0"
  then show "CipherContextNew sha1 s pp len = (None, s)"
    by (auto simp: CipherContextNew_def)
next
  assume a: "0 < len \<and> fst (sqlite3_malloc s sizeof_SQLiteCipherContext)"
  obtain ok s1 where m: "sqlite3_malloc s sizeof_SQLiteCipherContext = (ok, s1)"
    by (cases "sqlite3_malloc s sizeof_SQLiteCipherContext")
  with a have ok by simp
  with a m sqlite3_malloc_frame [OF m]
  show "\<exists>s'. CipherContextNew sha1 s (Some p) len = (Some (next_addr s), s')
             \<and> ctxs s' (next_addr s) = Some \<lparr>key = take KEYSIZE (sha1 (take (nat len) p))\<rparr>"
    by (simp add: CipherContextNew_def Let_def)
next
  have k: "ctxs u' x = Some \<lparr>key = take KEYSIZE (sha1 (take (nat len) p))\<rparr>"
    if "0 < len" and "CipherContextNew sha1 u (Some p) len = (Some x, u')" for u u' x
    using that
    by (auto simp: CipherContextNew_def Let_def split: prod.splits bool.splits)
  assume "0 < len \<and> CipherContextNew sha1 s (Some p) len = (Some a, s')
        \<and> CipherContextNew sha1 t (Some p) len = (Some b, t')"
  then show "ctxs s' a = ctxs t' b"
    and "ctxs s' a = Some \<lparr>key = take KEYSIZE (sha1 (take (nat len) p))\<rparr>"
    using k by metis+
qed

theorem key_is_digest_prefix_witness:
  "CipherContextNew length_digest plain_db None 3 = (None, plain_db)
   \<and> CipherContextNew length_digest plain_db (Some [7, 8, 9]) 0 = (None, plain_db)
   \<and> (0::int) < 3 \<and> fst (sqlite3_malloc plain_db sizeof_SQLiteCipherContext)
   \<and> fst (CipherContextNew length_digest plain_db (Some [7, 8, 9]) 3) = Some 0
   \<and> ctxs (snd (CipherContextNew length_digest plain_db (Some [7, 8, 9]) 3)) 0 =
       Some \<lparr>key = replicate 8 3\<rparr>
   \<and> fst (CipherContextNew length_digest keyed_db (Some [7, 8, 9]) 3) = Some 1
   \<and> ctxs (snd (CipherContextNew length_digest keyed_db (Some [7, 8, 9]) 3)) 1 =
       ctxs (snd (CipherContextNew length_digest plain_db (Some [7, 8, 9]) 3)) 0"
  using key_is_digest_prefix [of None 3 length_digest plain_db "[7, 8, 9]"]
        key_is_digest_prefix [of "Some [7, 8, 9]" 0 length_digest plain_db "[7, 8, 9]"]
  by (simp add: CipherContextNew_def sqlite3_malloc_def sizeof_SQLiteCipherContext_def
        plain_db_def keyed_db_def length_digest_def KEYSIZE_def Let_def)

subsection \<open>Encrypting and decrypting under a derived key\<close>




subsection \<open>Which buffer the codec callback returns\<close>

text \<open>
  C7, the claim as stated fails. With no write key, mode 6 returns the caller's buffer,
  not the scratch buffer; so does mode 7 with no read key, and any mode with no block.
\<close>

text \<open>C7\<close>

theorem plain_write_returns_input_counterexample:
  "SQLite3CodecCallback [0 \<mapsto> some_ctx] (Some (some_block\<lparr>writeCtx := None\<rparr>)) [1, 2] 1 6 =
     Some (Data, [1, 2], Some (some_block\<lparr>writeCtx := None\<rparr>))
   \<and> SQLite3CodecCallback [0 \<mapsto> some_ctx] (Some (some_block\<lparr>readCtx := None\<rparr>)) [1, 2] 1 7 =
     Some (Data, [1, 2], Some (some_block\<lparr>readCtx := None\<rparr>))
   \<and> SQLite3CodecCallback [0 \<mapsto> some_ctx] None [1, 2] 1 6 = Some (Data, [1, 2], None)
   \<and> SQLite3CodecCallback [0 \<mapsto> some_ctx] (Some (some_block\<lparr>readCtx := None\<rparr>)) [1, 2] 1 3 =
     Some (Data, [1, 2], Some (some_block\<lparr>readCtx := None\<rparr>))"
  by (simp add: SQLite3CodecCallback_def some_block_def)

text \<open>
  C7, amended. Whenever the callback is defined: in modes 6 and 7 the caller's buffer
  is left as it was, and the scratch buffer is returned exactly when there is a block
  whose key for that mode (the write key in mode 6, the read key in mode 7) is present;
  otherwise the caller's buffer is returned and the block is untouched. In modes 0, 2
  and 3 the caller's buffer is returned and the block is untouched; the buffer holds
  the result of \<open>SQLiteDecrypt\<close> under the read key, run in place, when there is a
  read key, and is left as it was when there is none.
\<close>

theorem codec_buffers:
  assumes "SQLite3CodecCallback mem pArg data n nMode = Some (r, d, b)"
  shows "(nMode = 6 \<or> nMode = 7 \<longrightarrow>
            d = data
            \<and> (r = CryptBuffer \<longleftrightarrow>
                 (\<exists>blk a. pArg = Some blk
                    \<and> (if nMode = 6 then writeCtx blk else readCtx blk) = Some a))
            \<and> (r = Data \<longrightarrow> b = pArg))
         \<and> (nMode = 0 \<or> nMode = 2 \<or> nMode = 3 \<longrightarrow>
              r = Data \<and> b = pArg
              \<and> (case pArg of
                    None \<Rightarrow> d = data
                  | Some blk \<Rightarrow>
                      (case readCtx blk of
                         None \<Rightarrow> d = data
                       | Some a \<Rightarrow>
                           (\<exists>c. mem a = Some c
                              \<and> SQLiteDecrypt c data data (pageSize blk) = Some d))))"
  using assms
  by (auto simp: SQLite3CodecCallback_def split: option.splits if_splits)

theorem codec_buffers_witness:
  "\<exists>e d. SQLite3CodecCallback [0 \<mapsto> some_ctx] (Some some_block) (replicate 1024 7) 1 6 =
            Some (CryptBuffer, replicate 1024 7, Some (some_block\<lparr>cryptBuffer := Some e\<rparr>))
        \<and> SQLite3CodecCallback [0 \<mapsto> some_ctx] (Some some_block) (replicate 1024 7) 1 3 =
            Some (Data, d, Some some_block)
        \<and> SQLiteDecrypt some_ctx (replicate 1024 7) (replicate 1024 7) (pageSize some_block) = Some d
        \<and> writeCtx some_block = Some 0"
proof -
  obtain e where e: "SQLiteEncrypt some_ctx (replicate 1024 7) (replicate 1024 0) 1024 = Some e"
    using SQLiteEncrypt_in_bounds [of 1024 "replicate 1024 7" "replicate 1024 0" some_ctx] by auto
  obtain d where d: "SQLiteDecrypt some_ctx (replicate 1024 7) (replicate 1024 7) 1024 = Some d"
    using SQLiteEncrypt_in_bounds [of 1024 "replicate 1024 7" "replicate 1024 7" some_ctx]
    by (auto simp: SQLiteDecrypt_def)
  have w: "SQLite3CodecCallback [0 \<mapsto> some_ctx] (Some some_block) (replicate 1024 7) 1 6 =
            Some (CryptBuffer, replicate 1024 7, Some (some_block\<lparr>cryptBuffer := Some e\<rparr>))"
    using e by (simp add: SQLite3CodecCallback_def some_block_def)
  have l: "SQLite3CodecCallback [0 \<mapsto> some_ctx] (Some some_block) (replicate 1024 7) 1 3 =
            Some (Data, d, Some some_block)"
    using d by (simp add: SQLite3CodecCallback_def some_block_def)
  from codec_buffers [OF w] codec_buffers [OF l] w l show ?thesis
    by (auto simp: some_block_def)
qed

subsection \<open>What the operations do to the pagers\<close>

lemma CreateCodeCryptBlock_frame:
  "CreateCodeCryptBlock s ctx p ps ex = (ok, b, s2) \<Longrightarrow>
     aDb s2 = aDb s \<and> ctxs s2 = ctxs s \<and> next_addr s2 = next_addr s \<and> trace s2 = trace s"
  by (auto simp: CreateCodeCryptBlock_def Let_def
           split: if_splits prod.splits option.splits bool.splits dest!: sqlite3_malloc_frame)

lemma CreateCodeCryptBlock_new_ctx:
  "CreateCodeCryptBlock s ctx p ps None = (ok, Some blk, s2) \<Longrightarrow>
     readCtx blk = ctx \<and> writeCtx blk = ctx"
  by (auto simp: CreateCodeCryptBlock_def Let_def
           split: if_splits prod.splits option.splits bool.splits)

lemma aDb_sqlite3_free [simp]: "aDb (sqlite3_free s a) = aDb s"
  by (simp add: sqlite3_free_def)

lemma aDb_FreeCodecCryptBlock [simp]: "aDb (FreeCodecCryptBlock s blk) = aDb s"
  by (simp add: FreeCodecCryptBlock_def Let_def split: option.splits)

lemma aDb_sqlite3PagerSetCodec:
  "aDb (sqlite3PagerSetCodec s p codec) = (aDb s)(p := (aDb s p)\<lparr>pCodec := codec\<rparr>)"
  by (simp add: sqlite3PagerSetCodec_def SQLite3CodecFreeCallback_def Let_def split: option.splits)

lemma aDb_set_pCodec: "aDb (set_pCodec s p blk) = (aDb s)(p := (aDb s p)\<lparr>pCodec := Some blk\<rparr>)"
  by (simp add: set_pCodec_def)

lemma aDb_CipherContextNew: "CipherContextNew sha1 s pk n = (r, s1) \<Longrightarrow> aDb s1 = aDb s"
  by (auto simp: CipherContextNew_def Let_def
           split: if_splits prod.splits bool.splits dest: sqlite3_malloc_frame)

lemma aDb_CipherContextClone: "CipherContextClone s org = (r, s1) \<Longrightarrow> aDb s1 = aDb s"
  by (auto simp: CipherContextClone_def Let_def
           split: prod.splits bool.splits dest: sqlite3_malloc_frame)

lemma aDb_attach_ctx:
  "attach_ctx sha1 s nDb pKey nKeyLen = Inl (rc, s1) \<Longrightarrow> aDb s1 = aDb s"
  "attach_ctx sha1 s nDb pKey nKeyLen = Inr (c, s1) \<Longrightarrow> aDb s1 = aDb s"
  by (auto simp: attach_ctx_def split: if_splits option.splits prod.splits
           dest: aDb_CipherContextNew aDb_CipherContextClone)

lemma aDb_sqlite3CodecAttach:
  assumes "sqlite3CodecAttach sha1 s nDb pKey nKeyLen = (rc, s')"
  shows "aDb s' = aDb s \<or>
         (\<exists>blk. readCtx blk = writeCtx blk \<and> aDb s' = (aDb s)(nDb := (aDb s nDb)\<lparr>pCodec := Some blk\<rparr>))"
proof (cases "attach_ctx sha1 s nDb pKey nKeyLen")
  case (Inl r)
  with assms aDb_attach_ctx(1)[of sha1 s nDb pKey nKeyLen "fst r" "snd r"] show ?thesis
    by (simp add: sqlite3CodecAttach_def)
next
  case (Inr r)
  obtain c s1 where r: "r = (c, s1)" by (cases r)
  have s1: "aDb s1 = aDb s" using Inr r aDb_attach_ctx(2) by blast
  obtain ok b s2 where cr: "CreateCodeCryptBlock s1 c nDb (- 1) None = (ok, b, s2)"
    by (cases "CreateCodeCryptBlock s1 c nDb (- 1) None") auto
  have s2: "aDb s2 = aDb s" using CreateCodeCryptBlock_frame[OF cr] s1 by simp
  show ?thesis
  proof (cases "c \<noteq> None \<and> ok \<and> b \<noteq> None")
    case True
    then obtain blk where b: "b = Some blk" by auto
    have "readCtx blk = writeCtx blk" using CreateCodeCryptBlock_new_ctx cr b by fastforce
    moreover have "s' = sqlite3PagerSetCodec s2 nDb (Some blk)"
      using assms Inr r cr b True by (simp add: sqlite3CodecAttach_def)
    ultimately show ?thesis using s2 by (auto simp: aDb_sqlite3PagerSetCodec)
  next
    case False
    then have "s' = s1 \<or> s' = s2"
      using assms Inr r cr by (auto simp: sqlite3CodecAttach_def split: if_splits option.splits bool.splits)
    then show ?thesis using s1 s2 by auto
  qed
qed

lemma aDb_rekey_block:
  "rekey_block sha1 s pKey nKey = Inl s2 \<Longrightarrow> aDb s2 = aDb s"
  "rekey_block sha1 s pKey nKey = Inr (blk, s2) \<Longrightarrow> aDb s2 = (aDb s)(0 := (aDb s 0)\<lparr>pCodec := Some blk\<rparr>)"
  by (auto simp: rekey_block_def Let_def aDb_sqlite3PagerSetCodec aDb_set_pCodec
           split: prod.splits option.splits bool.splits
           dest!: aDb_CipherContextNew CreateCodeCryptBlock_frame)

text \<open>The codec that \<open>rekey_finish\<close> leaves with the pager of database 0: on success the
  read key becomes the write key, on failure the write key becomes the read key, and a
  block whose keys are then both \<^verbatim>\<open>NULL\<close> is removed.\<close>

lemma pCodec_rekey_finish:
  "aDb (rekey_finish s blk rc) =
     (aDb s)(0 := (aDb s 0)\<lparr>pCodec :=
        (if rc = SQLITE_OK
         then (if writeCtx blk = None then None else Some (blk\<lparr>readCtx := writeCtx blk\<rparr>))
         else (if readCtx blk = None then None else Some (blk\<lparr>writeCtx := readCtx blk\<rparr>)))\<rparr>)"
  by (auto simp: rekey_finish_def Let_def aDb_sqlite3PagerSetCodec aDb_set_pCodec
           split: option.splits)

lemma aDb_sqlite3_rekey_v2:
  assumes "sqlite3_rekey_v2 sha1 h s pKey nKey = (rc, s')"
  shows "aDb s' = aDb s \<or>
         (\<exists>c. (case c of None \<Rightarrow> True | Some b \<Rightarrow> readCtx b = writeCtx b) \<and>
              aDb s' = (aDb s)(0 := (aDb s 0)\<lparr>pCodec := c\<rparr>))"
proof (cases "rekey_block sha1 s pKey nKey")
  case (Inl s2)
  with assms aDb_rekey_block(1)[OF Inl] show ?thesis by (simp add: sqlite3_rekey_v2_def)
next
  case (Inr r)
  obtain blk s2 where r: "r = (blk, s2)" by (cases r)
  obtain rc1 tr where t: "rekey_transaction h (trace s2) = (rc1, tr)"
    by (cases "rekey_transaction h (trace s2)")
  have s': "s' = rekey_finish (s2\<lparr>trace := tr\<rparr>) blk rc1"
    using assms Inr r t by (auto simp: sqlite3_rekey_v2_def)
  have s2: "aDb s2 = (aDb s)(0 := (aDb s 0)\<lparr>pCodec := Some blk\<rparr>)"
    using aDb_rekey_block(2) Inr r by blast
  let ?c = "if rc1 = SQLITE_OK
         then (if writeCtx blk = None then None else Some (blk\<lparr>readCtx := writeCtx blk\<rparr>))
         else (if readCtx blk = None then None else Some (blk\<lparr>writeCtx := readCtx blk\<rparr>))"
  have "case ?c of None \<Rightarrow> True | Some b \<Rightarrow> readCtx b = writeCtx b" by simp
  moreover have "aDb s' = (aDb s)(0 := (aDb s 0)\<lparr>pCodec := ?c\<rparr>)"
    unfolding s' pCodec_rekey_finish using s2 by simp
  ultimately show ?thesis by blast
qed

subsection \<open>Keys at rest\<close>

lemma keys_at_rest_upd:
  "keys_at_rest s \<Longrightarrow> aDb s' = (aDb s)(p := (aDb s p)\<lparr>pCodec := c\<rparr>) \<Longrightarrow>
     (case c of None \<Rightarrow> True | Some blk \<Rightarrow> readCtx blk = writeCtx blk) \<Longrightarrow> keys_at_rest s'"
  by (auto simp: keys_at_rest_def split: option.splits)

lemma keys_at_rest_same: "keys_at_rest s \<Longrightarrow> aDb s' = aDb s \<Longrightarrow> keys_at_rest s'"
  by (simp add: keys_at_rest_def)

subsection \<open>Keys that are owned\<close>

lemma owned_step:
  assumes inv: "owned s"
    and nxt: "next_addr s \<le> next_addr s'"
    and ok: "store_ok s'"
    and others: "\<And>i. i \<noteq> p \<Longrightarrow> pCodec (aDb s' i) = pCodec (aDb s i)"
    and kept: "\<And>a. a < next_addr s \<Longrightarrow> key_of s p \<noteq> Some a \<Longrightarrow> ctxs s' a = ctxs s a"
    and new: "case pCodec (aDb s' p) of None \<Rightarrow> True
              | Some b \<Rightarrow> readCtx b = writeCtx b
                  \<and> (\<forall>a. readCtx b = Some a \<longrightarrow>
                        ctxs s' a \<noteq> None \<and> (key_of s p = Some a \<or> next_addr s \<le> a))"
  shows "owned s'"
proof -
  have lt: "a < next_addr s" if "key_of s i = Some a" for i a
    using inv that by (auto simp: owned_def store_ok_def)
  have ko: "key_of s' i = key_of s i" if "i \<noteq> p" for i
    using others [OF that] by (simp add: key_of_def)
  have kp: "ctxs s' a \<noteq> None \<and> (key_of s p = Some a \<or> next_addr s \<le> a)"
    if "key_of s' p = Some a" for a
    using new that by (auto simp: key_of_def split: option.splits)
  have 1: "keys_at_rest s'"
    unfolding keys_at_rest_def
  proof
    fix i
    show "case pCodec (aDb s' i) of None \<Rightarrow> True | Some blk \<Rightarrow> readCtx blk = writeCtx blk"
    proof (cases "i = p")
      case True
      then show ?thesis using new by (auto split: option.splits)
    next
      case False
      then show ?thesis using others [OF False] inv
        by (auto simp: owned_def keys_at_rest_def split: option.splits)
    qed
  qed
  have 2: "ctxs s' a \<noteq> None" if k: "key_of s' i = Some a" for i a
  proof (cases "i = p")
    case True
    then show ?thesis using kp k by blast
  next
    case False
    then have k0: "key_of s i = Some a" using k ko by simp
    then have "key_of s p \<noteq> Some a" using inv False by (auto simp: owned_def)
    with kept [OF lt [OF k0]] have "ctxs s' a = ctxs s a" by simp
    then show ?thesis using inv k0 by (auto simp: owned_def)
  qed
  have 3: "i = j" if ki: "key_of s' i = Some a" and kj: "key_of s' j = Some a" for i j a
  proof (cases "i = p"; cases "j = p")
    assume "i = p" "j = p" then show ?thesis by simp
  next
    assume i: "i = p" and j: "j \<noteq> p"
    then have kj0: "key_of s j = Some a" using kj ko by simp
    from kp ki i have "key_of s p = Some a \<or> next_addr s \<le> a" by blast
    then show ?thesis using lt [OF kj0] inv kj0 j by (auto simp: owned_def)
  next
    assume i: "i \<noteq> p" and j: "j = p"
    then have ki0: "key_of s i = Some a" using ki ko by simp
    from kp kj j have "key_of s p = Some a \<or> next_addr s \<le> a" by blast
    then show ?thesis using lt [OF ki0] inv ki0 i by (auto simp: owned_def)
  next
    assume "i \<noteq> p" "j \<noteq> p"
    then show ?thesis using ki kj ko inv by (auto simp: owned_def)
  qed
  from 1 ok 2 3 show ?thesis unfolding owned_def by blast
qed


lemma owned_grow:
  assumes "owned s" and "aDb s1 = aDb s" and "next_addr s \<le> next_addr s1" and "store_ok s1"
    and "\<And>a. a < next_addr s \<Longrightarrow> ctxs s1 a = ctxs s a"
  shows "owned s1"
proof (rule owned_step [OF assms(1) assms(3) assms(4), of 0])
  show "pCodec (aDb s1 i) = pCodec (aDb s i)" for i by (simp add: assms(2))
  show "ctxs s1 a = ctxs s a" if "a < next_addr s" for a using assms(5) that by simp
  show "case pCodec (aDb s1 0) of None \<Rightarrow> True
        | Some b \<Rightarrow> readCtx b = writeCtx b
            \<and> (\<forall>a. readCtx b = Some a \<longrightarrow>
                  ctxs s1 a \<noteq> None \<and> (key_of s 0 = Some a \<or> next_addr s \<le> a))"
  proof (cases "pCodec (aDb s 0)")
    case None
    then show ?thesis by (simp add: assms(2))
  next
    case (Some b)
    have r: "readCtx b = writeCtx b"
      using assms(1) Some by (auto simp: owned_def keys_at_rest_def split: option.splits)
    have "ctxs s1 a \<noteq> None \<and> key_of s 0 = Some a" if "readCtx b = Some a" for a
    proof -
      have k: "key_of s 0 = Some a" using Some that by (simp add: key_of_def)
      then have "ctxs s a \<noteq> None" and "a < next_addr s"
        using assms(1) by (auto simp: owned_def store_ok_def)
      then show ?thesis using assms(5) k by simp
    qed
    with r Some show ?thesis by (simp add: assms(2))
  qed
qed

lemma CipherContextNew_effect:
  assumes "CipherContextNew sha1 s pk n = (r, s1)" and "store_ok s"
  shows "aDb s1 = aDb s \<and> next_addr s \<le> next_addr s1 \<and> store_ok s1
         \<and> (\<forall>a. a < next_addr s \<longrightarrow> ctxs s1 a = ctxs s a)
         \<and> (\<forall>a. r = Some a \<longrightarrow> ctxs s1 a \<noteq> None \<and> next_addr s \<le> a)"
  using assms
  by (auto simp: CipherContextNew_def Let_def store_ok_def
           split: if_splits prod.splits bool.splits dest!: sqlite3_malloc_frame)
     (metis less_SucI)

lemma CipherContextClone_effect:
  assumes "CipherContextClone s org = (r, s1)" and "store_ok s" and "ctxs s org \<noteq> None"
  shows "aDb s1 = aDb s \<and> next_addr s \<le> next_addr s1 \<and> store_ok s1
         \<and> (\<forall>a. a < next_addr s \<longrightarrow> ctxs s1 a = ctxs s a)
         \<and> (\<forall>a. r = Some a \<longrightarrow> ctxs s1 a \<noteq> None \<and> next_addr s \<le> a)"
  using assms
  by (auto simp: CipherContextClone_def Let_def store_ok_def
           split: if_splits prod.splits bool.splits dest!: sqlite3_malloc_frame)
     (metis less_SucI)

lemma attach_ctx_effect:
  assumes "owned s"
  shows "attach_ctx sha1 s nDb pKey nKeyLen = Inl (rc, s1) \<Longrightarrow>
           aDb s1 = aDb s \<and> next_addr s \<le> next_addr s1 \<and> store_ok s1
           \<and> (\<forall>a. a < next_addr s \<longrightarrow> ctxs s1 a = ctxs s a)"
    and "attach_ctx sha1 s nDb pKey nKeyLen = Inr (c, s1) \<Longrightarrow>
           aDb s1 = aDb s \<and> next_addr s \<le> next_addr s1 \<and> store_ok s1
           \<and> (\<forall>a. a < next_addr s \<longrightarrow> ctxs s1 a = ctxs s a)
           \<and> (\<exists>a. c = Some a \<and> ctxs s1 a \<noteq> None \<and> next_addr s \<le> a)"
proof -
  have ok: "store_ok s" using assms by (simp add: owned_def)
  have live: "ctxs s r \<noteq> None" if "pCodec (aDb s 0) = Some pb" and "readCtx pb = Some r" for pb r
  proof -
    have "key_of s 0 = Some r" using that by (simp add: key_of_def)
    then show ?thesis using assms by (auto simp: owned_def)
  qed
  show "attach_ctx sha1 s nDb pKey nKeyLen = Inl (rc, s1) \<Longrightarrow>
           aDb s1 = aDb s \<and> next_addr s \<le> next_addr s1 \<and> store_ok s1
           \<and> (\<forall>a. a < next_addr s \<longrightarrow> ctxs s1 a = ctxs s a)"
    using ok live
    by (auto simp: attach_ctx_def split: if_splits option.splits prod.splits
             dest!: CipherContextNew_effect CipherContextClone_effect)
  show "attach_ctx sha1 s nDb pKey nKeyLen = Inr (c, s1) \<Longrightarrow>
           aDb s1 = aDb s \<and> next_addr s \<le> next_addr s1 \<and> store_ok s1
           \<and> (\<forall>a. a < next_addr s \<longrightarrow> ctxs s1 a = ctxs s a)
           \<and> (\<exists>a. c = Some a \<and> ctxs s1 a \<noteq> None \<and> next_addr s \<le> a)"
    using ok live
    by (auto simp: attach_ctx_def split: if_splits option.splits prod.splits
             dest!: CipherContextNew_effect CipherContextClone_effect)
qed


lemma sqlite3PagerSetCodec_store:
  "next_addr (sqlite3PagerSetCodec s p c) = next_addr s"
  "ctxs (sqlite3PagerSetCodec s p c) a =
     (case pCodec (aDb s p) of
        None \<Rightarrow> ctxs s a
      | Some old \<Rightarrow> if readCtx old = Some a \<or> writeCtx old = Some a then None else ctxs s a)"
  by (auto simp: sqlite3PagerSetCodec_def SQLite3CodecFreeCallback_def FreeCodecCryptBlock_def
        sqlite3_free_def Let_def split: option.splits)

lemma store_ok_sqlite3PagerSetCodec: "store_ok s \<Longrightarrow> store_ok (sqlite3PagerSetCodec s p c)"
  by (auto simp: store_ok_def sqlite3PagerSetCodec_store split: option.splits if_splits)

lemma owned_attach:
  assumes inv: "owned s"
  shows "owned (snd (sqlite3CodecAttach sha1 s nDb pKey nKeyLen))"
proof (cases "attach_ctx sha1 s nDb pKey nKeyLen")
  case (Inl r)
  then have "attach_ctx sha1 s nDb pKey nKeyLen = Inl (fst r, snd r)" by simp
  from attach_ctx_effect(1) [OF inv this] have "owned (snd r)"
    by (intro owned_grow [OF inv]) auto
  with Inl show ?thesis by (simp add: sqlite3CodecAttach_def)
next
  case (Inr r)
  obtain c s1 where r: "r = (c, s1)" by (cases r)
  from attach_ctx_effect(2) [OF inv, of sha1 nDb pKey nKeyLen c s1] Inr r
  obtain a where s1: "aDb s1 = aDb s" "next_addr s \<le> next_addr s1" "store_ok s1"
      "\<And>x. x < next_addr s \<Longrightarrow> ctxs s1 x = ctxs s x"
    and a: "c = Some a" "ctxs s1 a \<noteq> None" "next_addr s \<le> a"
    by auto
  obtain ok b s2 where cr: "CreateCodeCryptBlock s1 c nDb (- 1) None = (ok, b, s2)"
    by (cases "CreateCodeCryptBlock s1 c nDb (- 1) None") auto
  from CreateCodeCryptBlock_frame [OF cr]
  have s2: "aDb s2 = aDb s1" "ctxs s2 = ctxs s1" "next_addr s2 = next_addr s1" by auto
  have ok2: "store_ok s2" using s1(3) s2 by (simp add: store_ok_def)
  have g2: "owned s2" using s1 s2 ok2 by (intro owned_grow [OF inv]) auto
  show ?thesis
  proof (cases "ok \<and> b \<noteq> None")
    case False
    then have "snd (sqlite3CodecAttach sha1 s nDb pKey nKeyLen) = s2"
      using Inr r cr a by (auto simp: sqlite3CodecAttach_def split: option.splits bool.splits)
    with g2 show ?thesis by simp
  next
    case True
    then obtain blk where b: "b = Some blk" and ok by auto
    have k: "readCtx blk = Some a" "writeCtx blk = Some a"
      using CreateCodeCryptBlock_new_ctx cr b a(1) by fastforce+
    let ?s' = "sqlite3PagerSetCodec s2 nDb (Some blk)"
    have res: "snd (sqlite3CodecAttach sha1 s nDb pKey nKeyLen) = ?s'"
      using Inr r cr a b \<open>ok\<close> by (simp add: sqlite3CodecAttach_def)
    have old: "readCtx o' = writeCtx o' \<and> key_of s nDb = readCtx o'"
      if "pCodec (aDb s nDb) = Some o'" for o'
      using inv that by (auto simp: owned_def keys_at_rest_def key_of_def split: option.splits)
    have lt: "x < next_addr s" if "key_of s nDb = Some x" for x
      using inv that by (auto simp: owned_def store_ok_def)
    have "owned ?s'"
    proof (rule owned_step [OF inv, of _ nDb])
      show "next_addr s \<le> next_addr ?s'"
        using s1 s2 by (simp add: sqlite3PagerSetCodec_store)
      show "store_ok ?s'" using ok2 by (rule store_ok_sqlite3PagerSetCodec)
      show "pCodec (aDb ?s' i) = pCodec (aDb s i)" if "i \<noteq> nDb" for i
        using that s1 s2 by (simp add: aDb_sqlite3PagerSetCodec)
      show "ctxs ?s' x = ctxs s x" if "x < next_addr s" and "key_of s nDb \<noteq> Some x" for x
        using that s1 s2 old
        by (auto simp: sqlite3PagerSetCodec_store split: option.splits)
      have "ctxs ?s' a \<noteq> None"
        using a s1 s2 old lt
        by (auto simp: sqlite3PagerSetCodec_store split: option.splits)
      then show "case pCodec (aDb ?s' nDb) of None \<Rightarrow> True
            | Some b \<Rightarrow> readCtx b = writeCtx b
                \<and> (\<forall>x. readCtx b = Some x \<longrightarrow>
                      ctxs ?s' x \<noteq> None \<and> (key_of s nDb = Some x \<or> next_addr s \<le> x))"
        using k a by (simp add: aDb_sqlite3PagerSetCodec)
    qed
    with res show ?thesis by simp
  qed
qed


lemma rekey_finish_store:
  "next_addr (rekey_finish s blk rc) = next_addr s"
  "ctxs (rekey_finish s blk rc) x =
     (if (if rc = SQLITE_OK then readCtx blk else writeCtx blk) = Some x then None else ctxs s x)"
  by (auto simp: rekey_finish_def Let_def sqlite3PagerSetCodec_store set_pCodec_def
        sqlite3_free_def split: option.splits)

lemma rekey_block_effect:
  assumes inv: "owned s"
  shows "rekey_block sha1 s pKey nKey = Inl s2 \<Longrightarrow>
           aDb s2 = aDb s \<and> next_addr s \<le> next_addr s2 \<and> store_ok s2
           \<and> (\<forall>x. x < next_addr s \<longrightarrow> ctxs s2 x = ctxs s x)"
    and "rekey_block sha1 s pKey nKey = Inr (blk, s2) \<Longrightarrow>
           aDb s2 = (aDb s)(0 := (aDb s 0)\<lparr>pCodec := Some blk\<rparr>)
           \<and> next_addr s \<le> next_addr s2 \<and> store_ok s2
           \<and> (\<forall>x. x < next_addr s \<longrightarrow> ctxs s2 x = ctxs s x)
           \<and> readCtx blk = key_of s 0
           \<and> (\<forall>a. writeCtx blk = Some a \<longrightarrow> ctxs s2 a \<noteq> None \<and> next_addr s \<le> a)"
proof -
  have ok: "store_ok s" using inv by (simp add: owned_def)
  obtain c s1 where n: "CipherContextNew sha1 s pKey nKey = (c, s1)"
    by (cases "CipherContextNew sha1 s pKey nKey")
  from CipherContextNew_effect [OF n ok]
  have s1: "aDb s1 = aDb s" "next_addr s \<le> next_addr s1" "store_ok s1"
      "\<And>x. x < next_addr s \<Longrightarrow> ctxs s1 x = ctxs s x"
      "\<And>a. c = Some a \<Longrightarrow> ctxs s1 a \<noteq> None \<and> next_addr s \<le> a"
    by auto
  obtain ok' b s3 where cr: "CreateCodeCryptBlock s1 c 0 (- 1) None = (ok', b, s3)"
    by (cases "CreateCodeCryptBlock s1 c 0 (- 1) None") auto
  from CreateCodeCryptBlock_frame [OF cr]
  have s3: "aDb s3 = aDb s1" "ctxs s3 = ctxs s1" "next_addr s3 = next_addr s1" by auto
  have ok3: "store_ok s3" using s1(3) s3 by (simp add: store_ok_def)
  show "rekey_block sha1 s pKey nKey = Inl s2 \<Longrightarrow>
           aDb s2 = aDb s \<and> next_addr s \<le> next_addr s2 \<and> store_ok s2
           \<and> (\<forall>x. x < next_addr s \<longrightarrow> ctxs s2 x = ctxs s x)"
    using n cr s1 s3 ok3
    by (auto simp: rekey_block_def Let_def split: option.splits bool.splits)
  show "rekey_block sha1 s pKey nKey = Inr (blk, s2) \<Longrightarrow>
           aDb s2 = (aDb s)(0 := (aDb s 0)\<lparr>pCodec := Some blk\<rparr>)
           \<and> next_addr s \<le> next_addr s2 \<and> store_ok s2
           \<and> (\<forall>x. x < next_addr s \<longrightarrow> ctxs s2 x = ctxs s x)
           \<and> readCtx blk = key_of s 0
           \<and> (\<forall>a. writeCtx blk = Some a \<longrightarrow> ctxs s2 a \<noteq> None \<and> next_addr s \<le> a)"
  proof (cases "pCodec (aDb s 0)")
    case None
    assume "rekey_block sha1 s pKey nKey = Inr (blk, s2)"
    with None n cr s1(1) obtain blk0 where b: "b = Some blk0" "ok'"
      and blk: "blk = blk0\<lparr>readCtx := None\<rparr>"
      and s2: "s2 = sqlite3PagerSetCodec s3 0 (Some blk)"
      by (auto simp: rekey_block_def Let_def split: option.splits bool.splits)
    have w: "writeCtx blk = c"
      using CreateCodeCryptBlock_new_ctx cr b blk by fastforce
    have c2: "ctxs s2 x = ctxs s1 x" for x
      using None s1(1) s3 by (simp add: s2 sqlite3PagerSetCodec_store)
    have "store_ok s2" unfolding s2 using ok3 by (rule store_ok_sqlite3PagerSetCodec)
    then show ?thesis
      using None s1 s3 w c2 blk
      by (simp add: s2 aDb_sqlite3PagerSetCodec sqlite3PagerSetCodec_store key_of_def)
  next
    case (Some b0)
    assume "rekey_block sha1 s pKey nKey = Inr (blk, s2)"
    with Some n s1(1) have blk: "blk = b0\<lparr>writeCtx := c\<rparr>" and s2: "s2 = set_pCodec s1 0 blk"
      by (auto simp: rekey_block_def Let_def)
    have "store_ok s2" using s1(3) by (simp add: s2 store_ok_def set_pCodec_def)
    then show ?thesis
      using Some s1 blk by (simp add: s2 set_pCodec_def key_of_def)
  qed
qed

lemma owned_rekey:
  assumes inv: "owned s"
  shows "owned (snd (sqlite3_rekey_v2 sha1 h s pKey nKey))"
proof (cases "rekey_block sha1 s pKey nKey")
  case (Inl s2)
  from rekey_block_effect(1) [OF inv Inl] have "owned s2"
    by (intro owned_grow [OF inv]) auto
  with Inl show ?thesis by (simp add: sqlite3_rekey_v2_def)
next
  case (Inr r)
  obtain blk s2 where r: "r = (blk, s2)" by (cases r)
  obtain rc tr where t: "rekey_transaction h (trace s2) = (rc, tr)"
    by (cases "rekey_transaction h (trace s2)")
  let ?s' = "rekey_finish (s2\<lparr>trace := tr\<rparr>) blk rc"
  have res: "snd (sqlite3_rekey_v2 sha1 h s pKey nKey) = ?s'"
    using Inr r t by (simp add: sqlite3_rekey_v2_def)
  from rekey_block_effect(2) [OF inv, of sha1 pKey nKey blk s2] Inr r
  have s2: "aDb s2 = (aDb s)(0 := (aDb s 0)\<lparr>pCodec := Some blk\<rparr>)"
      "next_addr s \<le> next_addr s2" "store_ok s2"
      "\<And>x. x < next_addr s \<Longrightarrow> ctxs s2 x = ctxs s x"
      "readCtx blk = key_of s 0"
      "\<And>a. writeCtx blk = Some a \<Longrightarrow> ctxs s2 a \<noteq> None \<and> next_addr s \<le> a"
    by auto
  have lt: "x < next_addr s \<and> ctxs s x \<noteq> None" if "key_of s 0 = Some x" for x
    using inv that by (auto simp: owned_def store_ok_def)
  have "owned ?s'"
  proof (rule owned_step [OF inv, of _ 0])
    show "next_addr s \<le> next_addr ?s'" using s2(2) by (simp add: rekey_finish_store)
    show "store_ok ?s'"
      using s2(3) by (auto simp: store_ok_def rekey_finish_store split: if_splits)
    show "pCodec (aDb ?s' i) = pCodec (aDb s i)" if "i \<noteq> 0" for i
      using that s2(1) by (simp add: pCodec_rekey_finish)
    show "ctxs ?s' x = ctxs s x" if "x < next_addr s" and "key_of s 0 \<noteq> Some x" for x
      using that s2 by (auto simp: rekey_finish_store)
    show "case pCodec (aDb ?s' 0) of None \<Rightarrow> True
          | Some b \<Rightarrow> readCtx b = writeCtx b
              \<and> (\<forall>x. readCtx b = Some x \<longrightarrow>
                    ctxs ?s' x \<noteq> None \<and> (key_of s 0 = Some x \<or> next_addr s \<le> x))"
    proof (cases "rc = SQLITE_OK")
      case True
      show ?thesis
      proof (cases "writeCtx blk")
        case None
        with True show ?thesis by (simp add: pCodec_rekey_finish)
      next
        case (Some a)
        from s2(6) [OF Some] have a: "ctxs s2 a \<noteq> None" "next_addr s \<le> a" by auto
        have "readCtx blk \<noteq> Some a"
        proof
          assume "readCtx blk = Some a"
          then have "key_of s 0 = Some a" using s2(5) by simp
          from lt [OF this] a(2) show False by simp
        qed
        with True Some a show ?thesis
          by (simp add: pCodec_rekey_finish rekey_finish_store)
      qed
    next
      case False
      show ?thesis
      proof (cases "readCtx blk")
        case None
        with False show ?thesis by (simp add: pCodec_rekey_finish)
      next
        case (Some x)
        then have k: "key_of s 0 = Some x" using s2(5) by simp
        from lt [OF k] have x: "x < next_addr s" "ctxs s x \<noteq> None" by auto
        have "writeCtx blk \<noteq> Some x"
        proof
          assume "writeCtx blk = Some x"
          from s2(6) [OF this] x(1) show False by simp
        qed
        with False Some k x s2(4) show ?thesis
          by (simp add: pCodec_rekey_finish rekey_finish_store)
      qed
    qed
  qed
  with res show ?thesis by simp
qed

text \<open>
  C4. Attach and rekey keep the keys at rest: if the two key pointers of every
  registered block are both \<^verbatim>\<open>NULL\<close> or the same context before the call, they are so
  after \<^verbatim>\<open>sqlite3CodecAttach\<close> returns and after \<^verbatim>\<open>sqlite3_rekey_v2\<close> returns, with
  whatever status code, whatever the host answers and whichever allocations fail. If
  moreover every key is an allocated context that belongs to one database only, that
  too holds after the call: the two pointers of a block denote one live context. The
  last step of rekey leaves with database 0 the block with the read key set to the
  write key on success, the block with the write key set to the read key on failure,
  and no block when both would be \<^verbatim>\<open>NULL\<close>; the status code that decides between
  the two is the one that rekey returns.
\<close>

theorem keys_stay_at_rest:
  "(keys_at_rest s \<longrightarrow>
      keys_at_rest (snd (sqlite3CodecAttach sha1 s nDb pKey nKeyLen))
      \<and> keys_at_rest (snd (sqlite3_rekey_v2 sha1 h s pNew nNew)))
   \<and> (owned s \<longrightarrow>
      owned (snd (sqlite3CodecAttach sha1 s nDb pKey nKeyLen))
      \<and> owned (snd (sqlite3_rekey_v2 sha1 h s pNew nNew)))
   \<and> pCodec (aDb (rekey_finish s blk rc) 0) =
       (if rc = SQLITE_OK
        then (if writeCtx blk = None then None else Some (blk\<lparr>readCtx := writeCtx blk\<rparr>))
        else (if readCtx blk = None then None else Some (blk\<lparr>writeCtx := readCtx blk\<rparr>)))
   \<and> (rekey_block sha1 s pNew nNew = Inr (blk2, s2) \<longrightarrow>
        snd (sqlite3_rekey_v2 sha1 h s pNew nNew) =
          rekey_finish (s2\<lparr>trace := snd (rekey_transaction h (trace s2))\<rparr>) blk2
            (fst (sqlite3_rekey_v2 sha1 h s pNew nNew)))"
proof (intro conjI impI)
  assume r: "keys_at_rest s"
  obtain rc1 s1 where a: "sqlite3CodecAttach sha1 s nDb pKey nKeyLen = (rc1, s1)"
    by (cases "sqlite3CodecAttach sha1 s nDb pKey nKeyLen")
  from aDb_sqlite3CodecAttach [OF a] r have "keys_at_rest s1"
    by (auto intro: keys_at_rest_same keys_at_rest_upd [where c = "Some blk" for blk])
  with a show "keys_at_rest (snd (sqlite3CodecAttach sha1 s nDb pKey nKeyLen))" by simp
  obtain rc2 s2 where k: "sqlite3_rekey_v2 sha1 h s pNew nNew = (rc2, s2)"
    by (cases "sqlite3_rekey_v2 sha1 h s pNew nNew")
  from aDb_sqlite3_rekey_v2 [OF k] r have "keys_at_rest s2"
    by (auto intro: keys_at_rest_same keys_at_rest_upd)
  with k show "keys_at_rest (snd (sqlite3_rekey_v2 sha1 h s pNew nNew))" by simp
next
  assume "owned s"
  then show "owned (snd (sqlite3CodecAttach sha1 s nDb pKey nKeyLen))"
    and "owned (snd (sqlite3_rekey_v2 sha1 h s pNew nNew))"
    by (rule owned_attach, rule owned_rekey)
next
  show "pCodec (aDb (rekey_finish s blk rc) 0) =
       (if rc = SQLITE_OK
        then (if writeCtx blk = None then None else Some (blk\<lparr>readCtx := writeCtx blk\<rparr>))
        else (if readCtx blk = None then None else Some (blk\<lparr>writeCtx := readCtx blk\<rparr>)))"
    by (simp add: pCodec_rekey_finish)
next
  assume "rekey_block sha1 s pNew nNew = Inr (blk2, s2)"
  then show "snd (sqlite3_rekey_v2 sha1 h s pNew nNew) =
          rekey_finish (s2\<lparr>trace := snd (rekey_transaction h (trace s2))\<rparr>) blk2
            (fst (sqlite3_rekey_v2 sha1 h s pNew nNew))"
    by (simp add: sqlite3_rekey_v2_def split: prod.splits)
qed

theorem keys_stay_at_rest_witness:
  "owned plain_db \<and> keys_at_rest keyed_db \<and> owned keyed_db
   \<and> keys_at_rest (snd (sqlite3CodecAttach length_digest keyed_db 1 None 0))
   \<and> owned (snd (sqlite3CodecAttach length_digest keyed_db 1 None 0))
   \<and> keys_at_rest (snd (sqlite3_rekey_v2 length_digest page1_fails keyed_db (Some [7, 8, 9]) 3))
   \<and> owned (snd (sqlite3_rekey_v2 length_digest page1_fails keyed_db (Some [7, 8, 9]) 3))
   \<and> pCodec (aDb (snd (sqlite3CodecAttach length_digest keyed_db 1 None 0)) 1) =
       Some (some_block\<lparr>pager := 1, readCtx := Some 1, writeCtx := Some 1\<rparr>)"
proof -
  have k: "keys_at_rest keyed_db"
    by (simp add: keys_at_rest_def keyed_db_def some_block_def)
  have o: "owned keyed_db"
    by (auto simp: owned_def keys_at_rest_def store_ok_def key_of_def keyed_db_def
          some_block_def split: if_splits)
  have a: "pCodec (aDb (snd (sqlite3CodecAttach length_digest keyed_db 1 None 0)) 1) =
       Some (some_block\<lparr>pager := 1, readCtx := Some 1, writeCtx := Some 1\<rparr>)"
    by (simp add: sqlite3CodecAttach_def attach_ctx_def CipherContextClone_def
          CreateCodeCryptBlock_def sqlite3_malloc_def sizeof_SQLiteCipherContext_def
          sizeof_CodecCryptBlock_def sqlite3PagerSetCodec_def keyed_db_def some_block_def Let_def)
  have p: "owned plain_db"
    by (simp add: owned_def keys_at_rest_def store_ok_def key_of_def plain_db_def)
  from keys_stay_at_rest [of keyed_db length_digest 1 None 0 page1_fails "Some [7, 8, 9]" 3]
    k o a p
  show ?thesis by simp
qed

subsection \<open>Attaching without a key\<close>

lemma sqlite3_malloc_succeeds:
  assumes "0 < n" and "allocs_succeed (Suc k) s"
  shows "\<exists>s1. sqlite3_malloc s n = (True, s1) \<and> aDb s1 = aDb s \<and> ctxs s1 = ctxs s
              \<and> next_addr s1 = next_addr s \<and> allocs_succeed k s1"
  using assms by (cases "oom s") (auto simp: sqlite3_malloc_def allocs_succeed_def)

lemma CipherContextClone_succeeds:
  assumes "allocs_succeed (Suc k) s"
  shows "\<exists>s1. CipherContextClone s r = (Some (next_addr s), s1) \<and> aDb s1 = aDb s
              \<and> ctxs s1 = (ctxs s)(next_addr s := ctxs s r) \<and> allocs_succeed k s1"
proof -
  obtain s0 where "sqlite3_malloc s sizeof_SQLiteCipherContext = (True, s0)"
    and "aDb s0 = aDb s" and "ctxs s0 = ctxs s" and "next_addr s0 = next_addr s"
    and "allocs_succeed k s0"
    using sqlite3_malloc_succeeds [OF _ assms, of sizeof_SQLiteCipherContext]
    by (auto simp: sizeof_SQLiteCipherContext_def)
  then show ?thesis
    by (simp add: CipherContextClone_def Let_def allocs_succeed_def)
qed

lemma CreateCodeCryptBlock_succeeds:
  assumes "allocs_succeed 2 s" and "0 < pager_pageSize (aDb s p)"
  shows "\<exists>s2. CreateCodeCryptBlock s ctx p (- 1) None =
              (True,
               Some \<lparr>pager = p, pageSize = pager_pageSize (aDb s p), readCtx = ctx, writeCtx = ctx,
                     cryptBuffer = Some (replicate (nat (pager_pageSize (aDb s p))) 0)\<rparr>,
               s2)
            \<and> aDb s2 = aDb s \<and> ctxs s2 = ctxs s"
proof -
  have "allocs_succeed (Suc 1) s" using assms(1) by (simp add: numeral_2_eq_2)
  then obtain s1 where 1: "sqlite3_malloc s sizeof_CodecCryptBlock = (True, s1)"
    and s1: "aDb s1 = aDb s" "ctxs s1 = ctxs s" "allocs_succeed 1 s1"
    using sqlite3_malloc_succeeds [of sizeof_CodecCryptBlock 1 s]
    by (auto simp: sizeof_CodecCryptBlock_def)
  from s1(3) have "allocs_succeed (Suc 0) s1" by simp
  then obtain s2 where 2: "sqlite3_malloc s1 (pager_pageSize (aDb s p)) = (True, s2)"
    and s2: "aDb s2 = aDb s1" "ctxs s2 = ctxs s1"
    using sqlite3_malloc_succeeds [OF assms(2), of 0 s1] by auto
  from 1 2 s1 s2 assms(2) show ?thesis
    by (simp add: CreateCodeCryptBlock_def Let_def)
qed

text \<open>
  C8. Attach with no key (a \<^verbatim>\<open>NULL\<close> key or a key length of 0): on database 0 it
  returns \<^verbatim>\<open>SQLITE_OK\<close> and changes nothing; on any database it does the same when
  database 0 has no block or a block without read key. Otherwise, on a secondary
  database that has no codec yet, when the three allocations succeed: it returns
  \<^verbatim>\<open>SQLITE_OK\<close> and registers a block whose read key and write key are one new
  context, at an address other than that of the primary's read key, holding the same
  key bytes; the primary's block and context are as before, and freeing or overwriting
  either of the two contexts leaves the other as it is.
\<close>

theorem attach_without_key:
  assumes "pKey = None \<or> nKeyLen = 0"
  shows "sqlite3CodecAttach sha1 s 0 pKey nKeyLen = (SQLITE_OK, s)
         \<and> (pCodec (aDb s 0) = None \<or> (\<exists>pb. pCodec (aDb s 0) = Some pb \<and> readCtx pb = None)
              \<longrightarrow> sqlite3CodecAttach sha1 s nDb pKey nKeyLen = (SQLITE_OK, s))
         \<and> (nDb \<noteq> 0 \<and> pCodec (aDb s 0) = Some pb \<and> readCtx pb = Some r \<and> ctxs s r = Some k
             \<and> store_ok s \<and> pCodec (aDb s nDb) = None \<and> allocs_succeed 3 s
             \<and> 0 < pager_pageSize (aDb s nDb)
              \<longrightarrow> (\<exists>s' a. sqlite3CodecAttach sha1 s nDb pKey nKeyLen = (SQLITE_OK, s')
                     \<and> pCodec (aDb s' nDb) =
                         Some \<lparr>pager = nDb, pageSize = pager_pageSize (aDb s nDb),
                               readCtx = Some a, writeCtx = Some a,
                               cryptBuffer = Some (replicate (nat (pager_pageSize (aDb s nDb))) 0)\<rparr>
                     \<and> a \<noteq> r \<and> ctxs s' a = Some k \<and> ctxs s' r = Some k
                     \<and> pCodec (aDb s' 0) = Some pb
                     \<and> ctxs (sqlite3_free s' a) r = Some k \<and> ctxs (sqlite3_free s' r) a = Some k
                     \<and> ((ctxs s')(a \<mapsto> c)) r = Some k \<and> ((ctxs s')(r \<mapsto> c)) a = Some k))"
proof (intro conjI impI)
  show "sqlite3CodecAttach sha1 s 0 pKey nKeyLen = (SQLITE_OK, s)"
    using assms by (auto simp: sqlite3CodecAttach_def attach_ctx_def)
next
  assume "pCodec (aDb s 0) = None \<or> (\<exists>pb. pCodec (aDb s 0) = Some pb \<and> readCtx pb = None)"
  then show "sqlite3CodecAttach sha1 s nDb pKey nKeyLen = (SQLITE_OK, s)"
    using assms by (auto simp: sqlite3CodecAttach_def attach_ctx_def)
next
  assume h: "nDb \<noteq> 0 \<and> pCodec (aDb s 0) = Some pb \<and> readCtx pb = Some r \<and> ctxs s r = Some k
             \<and> store_ok s \<and> pCodec (aDb s nDb) = None \<and> allocs_succeed 3 s
             \<and> 0 < pager_pageSize (aDb s nDb)"
  let ?a = "next_addr s"
  from h have "r < ?a" by (auto simp: store_ok_def)
  then have ne: "?a \<noteq> r" by simp
  from h have "allocs_succeed (Suc 2) s" by (simp add: numeral_3_eq_3 numeral_2_eq_2)
  then obtain s1 where cl: "CipherContextClone s r = (Some ?a, s1)"
    and s1: "aDb s1 = aDb s" "ctxs s1 = (ctxs s)(?a := ctxs s r)" "allocs_succeed 2 s1"
    using CipherContextClone_succeeds [of 2 s r] by auto
  from h assms have ac: "attach_ctx sha1 s nDb pKey nKeyLen = Inr (Some ?a, s1)"
    by (auto simp: attach_ctx_def cl)
  let ?blk = "\<lparr>pager = nDb, pageSize = pager_pageSize (aDb s nDb),
                               readCtx = Some ?a, writeCtx = Some ?a,
                               cryptBuffer = Some (replicate (nat (pager_pageSize (aDb s nDb))) 0)\<rparr>"
  from h s1 obtain s2 where cr: "CreateCodeCryptBlock s1 (Some ?a) nDb (- 1) None = (True, Some ?blk, s2)"
    and s2: "aDb s2 = aDb s1" "ctxs s2 = ctxs s1"
    using CreateCodeCryptBlock_succeeds [of s1 nDb "Some ?a"] by auto
  let ?s' = "sqlite3PagerSetCodec s2 nDb (Some ?blk)"
  have r: "sqlite3CodecAttach sha1 s nDb pKey nKeyLen = (SQLITE_OK, ?s')"
    by (simp add: sqlite3CodecAttach_def ac cr)
  have c': "ctxs ?s' = (ctxs s)(?a \<mapsto> k)"
    using h s1 s2 by (simp add: sqlite3PagerSetCodec_def Let_def)
  have d': "aDb ?s' = (aDb s)(nDb := (aDb s nDb)\<lparr>pCodec := Some ?blk\<rparr>)"
    using s1 s2 by (simp add: aDb_sqlite3PagerSetCodec)
  show "\<exists>s' a. sqlite3CodecAttach sha1 s nDb pKey nKeyLen = (SQLITE_OK, s')
                     \<and> pCodec (aDb s' nDb) =
                         Some \<lparr>pager = nDb, pageSize = pager_pageSize (aDb s nDb),
                               readCtx = Some a, writeCtx = Some a,
                               cryptBuffer = Some (replicate (nat (pager_pageSize (aDb s nDb))) 0)\<rparr>
                     \<and> a \<noteq> r \<and> ctxs s' a = Some k \<and> ctxs s' r = Some k
                     \<and> pCodec (aDb s' 0) = Some pb
                     \<and> ctxs (sqlite3_free s' a) r = Some k \<and> ctxs (sqlite3_free s' r) a = Some k
                     \<and> ((ctxs s')(a \<mapsto> c)) r = Some k \<and> ((ctxs s')(r \<mapsto> c)) a = Some k"
    using r c' d' ne h
    by (intro exI [of _ ?s'] exI [of _ ?a]) (simp add: sqlite3_free_def)
qed

theorem attach_without_key_witness:
  "sqlite3CodecAttach length_digest keyed_db 0 None 0 = (SQLITE_OK, keyed_db)
   \<and> sqlite3CodecAttach length_digest plain_db 1 None 0 = (SQLITE_OK, plain_db)
   \<and> (1::nat) \<noteq> 0 \<and> pCodec (aDb keyed_db 0) = Some some_block \<and> readCtx some_block = Some 0
   \<and> ctxs keyed_db 0 = Some some_ctx \<and> store_ok keyed_db \<and> pCodec (aDb keyed_db 1) = None
   \<and> allocs_succeed 3 keyed_db \<and> 0 < pager_pageSize (aDb keyed_db 1)
   \<and> fst (sqlite3CodecAttach length_digest keyed_db 1 None 0) = SQLITE_OK
   \<and> pCodec (aDb (snd (sqlite3CodecAttach length_digest keyed_db 1 None 0)) 1) =
       Some \<lparr>pager = 1, pageSize = 1024, readCtx = Some 1, writeCtx = Some 1,
             cryptBuffer = Some (replicate 1024 0)\<rparr>
   \<and> ctxs (snd (sqlite3CodecAttach length_digest keyed_db 1 None 0)) 1 = Some some_ctx
   \<and> ctxs (snd (sqlite3CodecAttach length_digest keyed_db 1 None 0)) 0 = Some some_ctx"
proof -
  have a: "sqlite3CodecAttach length_digest keyed_db 1 None 0 =
     (SQLITE_OK,
      keyed_db\<lparr>aDb := (aDb keyed_db)(1 := \<lparr>pager_pageSize = 1024,
                  pCodec = Some \<lparr>pager = 1, pageSize = 1024, readCtx = Some 1, writeCtx = Some 1,
                                 cryptBuffer = Some (replicate 1024 0)\<rparr>\<rparr>),
                ctxs := [0 \<mapsto> some_ctx, 1 \<mapsto> some_ctx], next_addr := 2\<rparr>)"
    by (simp add: sqlite3CodecAttach_def attach_ctx_def CipherContextClone_def
          CreateCodeCryptBlock_def sqlite3_malloc_def sizeof_SQLiteCipherContext_def
          sizeof_CodecCryptBlock_def sqlite3PagerSetCodec_def keyed_db_def some_block_def Let_def
          numeral_2_eq_2)
  have c1: "sqlite3CodecAttach length_digest keyed_db 0 None 0 = (SQLITE_OK, keyed_db)"
    using attach_without_key [of None 0 length_digest keyed_db] by simp
  have c2: "sqlite3CodecAttach length_digest plain_db 1 None 0 = (SQLITE_OK, plain_db)"
    using attach_without_key [of None 0 length_digest plain_db 1] by (simp add: plain_db_def)
  have h: "(1::nat) \<noteq> 0" "pCodec (aDb keyed_db 0) = Some some_block"
    "readCtx some_block = Some 0" "ctxs keyed_db 0 = Some some_ctx" "store_ok keyed_db"
    "pCodec (aDb keyed_db 1) = None" "allocs_succeed 3 keyed_db"
    "0 < pager_pageSize (aDb keyed_db 1)"
    by (simp_all add: store_ok_def allocs_succeed_def keyed_db_def some_block_def)
  have r: "fst (sqlite3CodecAttach length_digest keyed_db 1 None 0) = SQLITE_OK"
    "pCodec (aDb (snd (sqlite3CodecAttach length_digest keyed_db 1 None 0)) 1) =
       Some \<lparr>pager = 1, pageSize = 1024, readCtx = Some 1, writeCtx = Some 1,
             cryptBuffer = Some (replicate 1024 0)\<rparr>"
    "ctxs (snd (sqlite3CodecAttach length_digest keyed_db 1 None 0)) 1 = Some some_ctx"
    "ctxs (snd (sqlite3CodecAttach length_digest keyed_db 1 None 0)) 0 = Some some_ctx"
    unfolding a by simp_all
  from c1 c2 h r show ?thesis by (intro conjI)
qed

subsection \<open>Rekey with a page that cannot be read\<close>

lemma upt_1_3: "[Suc 0..<3] = [Suc 0, 2]"
  by (simp add: upt_rec)

text \<open>
  C1, where the code departs from the claim. The host has two pages; reading page 1
  fails with status 7 and page 2 is read and marked dirty. The loop goes on after the
  failure and the status of page 2 replaces that of page 1, so the transaction is
  committed and the call returns \<^verbatim>\<open>SQLITE_OK\<close>, although page 1 was never marked
  dirty; the new key becomes the read key, and on a database that had a key the old
  context is freed. This holds for every digest function and passphrase.
\<close>

theorem rekey_commits_after_failed_page:
  "fst (sqlite3_rekey_v2 sha1 page1_fails plain_db (Some p) 1) = SQLITE_OK
   \<and> trace (snd (sqlite3_rekey_v2 sha1 page1_fails plain_db (Some p) 1)) =
       [BtreeBeginTrans 0, PagerGet 1 7, PagerGet 2 0, PagerWrite 2 0, BtreeCommit 0]
   \<and> pCodec (aDb (snd (sqlite3_rekey_v2 sha1 page1_fails plain_db (Some p) 1)) 0) =
       Some \<lparr>pager = 0, pageSize = 1024, readCtx = Some 0, writeCtx = Some 0,
             cryptBuffer = Some (replicate 1024 0)\<rparr>
   \<and> fst (sqlite3_rekey_v2 sha1 page1_fails keyed_db (Some p) 1) = SQLITE_OK
   \<and> trace (snd (sqlite3_rekey_v2 sha1 page1_fails keyed_db (Some p) 1)) =
       [BtreeBeginTrans 0, PagerGet 1 7, PagerGet 2 0, PagerWrite 2 0, BtreeCommit 0]
   \<and> pCodec (aDb (snd (sqlite3_rekey_v2 sha1 page1_fails keyed_db (Some p) 1)) 0) =
       Some (some_block\<lparr>readCtx := Some 1, writeCtx := Some 1\<rparr>)
   \<and> ctxs (snd (sqlite3_rekey_v2 sha1 page1_fails keyed_db (Some p) 1)) 0 = None"
proof -
  have t: "rekey_transaction page1_fails [] =
          (0, [BtreeBeginTrans 0, PagerGet 1 7, PagerGet 2 0, PagerWrite 2 0, BtreeCommit 0])"
    by (simp add: rekey_transaction_def page1_fails_def SQLITE_OK_def upt_1_3 Let_def)
  have b: "rekey_block sha1 plain_db (Some p) 1 =
      Inr (\<lparr>pager = 0, pageSize = 1024, readCtx = None, writeCtx = Some 0,
             cryptBuffer = Some (replicate 1024 0)\<rparr>,
           sqlite3PagerSetCodec
             (plain_db\<lparr>ctxs := [0 \<mapsto> \<lparr>key = take KEYSIZE (sha1 (take 1 p))\<rparr>], next_addr := 1\<rparr>) 0
             (Some \<lparr>pager = 0, pageSize = 1024, readCtx = None, writeCtx = Some 0,
                    cryptBuffer = Some (replicate 1024 0)\<rparr>))"
    by (simp add: rekey_block_def CipherContextNew_def CreateCodeCryptBlock_def sqlite3_malloc_def
          sizeof_SQLiteCipherContext_def sizeof_CodecCryptBlock_def plain_db_def Let_def)
  have k: "rekey_block sha1 keyed_db (Some p) 1 =
      Inr (some_block\<lparr>writeCtx := Some 1\<rparr>,
           set_pCodec
             (keyed_db\<lparr>ctxs := [0 \<mapsto> some_ctx, 1 \<mapsto> \<lparr>key = take KEYSIZE (sha1 (take 1 p))\<rparr>],
                       next_addr := 2\<rparr>) 0
             (some_block\<lparr>writeCtx := Some 1\<rparr>))"
    by (simp add: rekey_block_def CipherContextNew_def sqlite3_malloc_def
          sizeof_SQLiteCipherContext_def keyed_db_def Let_def numeral_2_eq_2)
  have tp: "trace (sqlite3PagerSetCodec (plain_db\<lparr>ctxs := m, next_addr := x\<rparr>) 0 c) = []" for m x c
    by (simp add: sqlite3PagerSetCodec_def plain_db_def Let_def)
  have tk: "trace (set_pCodec (keyed_db\<lparr>ctxs := m, next_addr := x\<rparr>) 0 c) = []" for m x c
    by (simp add: set_pCodec_def keyed_db_def)
  show ?thesis
    apply (simp add: sqlite3_rekey_v2_def b k tp tk t)
    apply (simp add: rekey_finish_def SQLITE_OK_def set_pCodec_def sqlite3PagerSetCodec_def
        sqlite3_free_def plain_db_def keyed_db_def some_block_def Let_def
        SQLite3CodecFreeCallback_def FreeCodecCryptBlock_def)
    done
qed

subsection \<open>The scratch buffer after a change of the page size\<close>

text \<open>
  C5, where the code departs from the claim. A block built for pages of 1024 bytes has
  a scratch buffer of 1024 bytes. When the page size becomes 4096 the size-change
  callback records 4096 in the block. An update through \<open>CreateCodeCryptBlock\<close> then
  finds the recorded size equal to the pager's and allocates nothing: the scratch
  buffer still has 1024 bytes, and the codec callback in mode 6 or 7 writes 4096 bytes
  through it, outside the buffer.
\<close>

theorem scratch_buffer_not_resized:
  "CreateCodeCryptBlock (keyed_db\<lparr>aDb := (\<lambda>i. \<lparr>pager_pageSize = 1024, pCodec = None\<rparr>)\<rparr>)
      (Some 0) 0 (- 1) None =
     (True, Some some_block, keyed_db\<lparr>aDb := (\<lambda>i. \<lparr>pager_pageSize = 1024, pCodec = None\<rparr>)\<rparr>)
   \<and> pCodec (aDb (sqlite3PagerSetPagesize keyed_db 0 4096) 0) = Some (some_block\<lparr>pageSize := 4096\<rparr>)
   \<and> pager_pageSize (aDb (sqlite3PagerSetPagesize keyed_db 0 4096) 0) = 4096
   \<and> CreateCodeCryptBlock (sqlite3PagerSetPagesize keyed_db 0 4096) (Some 0) 0 (- 1)
        (Some (some_block\<lparr>pageSize := 4096\<rparr>)) =
       (True, Some (some_block\<lparr>pageSize := 4096\<rparr>), sqlite3PagerSetPagesize keyed_db 0 4096)
   \<and> cryptBuffer (some_block\<lparr>pageSize := 4096\<rparr>) = Some (replicate 1024 0)
   \<and> SQLite3CodecCallback (ctxs (sqlite3PagerSetPagesize keyed_db 0 4096))
        (Some (some_block\<lparr>pageSize := 4096\<rparr>)) (replicate 4096 7) 1 6 = None
   \<and> SQLite3CodecCallback (ctxs (sqlite3PagerSetPagesize keyed_db 0 4096))
        (Some (some_block\<lparr>pageSize := 4096\<rparr>)) (replicate 4096 7) 1 7 = None"
  by (simp add: CreateCodeCryptBlock_def sqlite3_malloc_def sizeof_CodecCryptBlock_def
        keyed_db_def some_block_def sqlite3PagerSetPagesize_def SQLite3CodecSizeChangedCallback_def
        SQLite3CodecCallback_def SQLiteEncrypt_def mbedtls_arc4_crypt_def num_some_ctx Let_def)

end
